theory Spec2Isabelle
  imports Main "HOL-Library.Word" "HOL-Library.Multiset" "HOL-Library.List_Lexorder"
begin

section \<open>JavaScript strings\<close>

text \<open>
  A JavaScript string is a finite sequence of 16-bit code units. The literals of the
  source are ASCII; \<open>str\<close> turns an ASCII literal into its code units. An unpaired
  surrogate is a legal string element, which matters for \<open>encodeURIComponent\<close> below.
\<close>

type_synonym jsstring = "16 word list"

definition str :: "string \<Rightarrow> jsstring" where
  "str s = map of_char s"

text \<open>
  \<^verbatim>\<open>String.prototype.trim\<close> removes the code units of WhiteSpace and LineTerminator
  (ECMAScript 12.2 and 12.3) from both ends. All of them are single code units.
\<close>

definition isWhiteSpace :: "16 word \<Rightarrow> bool" where
  "isWhiteSpace c \<longleftrightarrow>
     c \<in> {0x0009, 0x000A, 0x000B, 0x000C, 0x000D, 0x0020, 0x00A0, 0x1680,
          0x2028, 0x2029, 0x202F, 0x205F, 0x3000, 0xFEFF}
     \<or> (0x2000 \<le> c \<and> c \<le> 0x200A)"

definition trim :: "jsstring \<Rightarrow> jsstring" where
  "trim s = rev (dropWhile isWhiteSpace (rev (dropWhile isWhiteSpace s)))"

text \<open>\<^verbatim>\<open>s.startsWith(p)\<close>, \<^verbatim>\<open>s.endsWith(p)\<close> and \<^verbatim>\<open>s.includes(p)\<close>.\<close>

definition startsWith :: "jsstring \<Rightarrow> jsstring \<Rightarrow> bool" where
  "startsWith s p \<longleftrightarrow> take (length p) s = p"

definition endsWith :: "jsstring \<Rightarrow> jsstring \<Rightarrow> bool" where
  "endsWith s p \<longleftrightarrow> length p \<le> length s \<and> drop (length s - length p) s = p"

fun str_includes :: "jsstring \<Rightarrow> jsstring \<Rightarrow> bool" where
  "str_includes [] p = (p = [])"
| "str_includes (c # cs) p = (startsWith (c # cs) p \<or> str_includes cs p)"

text \<open>
  \<^verbatim>\<open>s.split(sep)\<close> for a separator of one code unit: the pieces between the
  separators, empty pieces included; the empty string splits into one empty piece.
\<close>

fun split :: "jsstring \<Rightarrow> 16 word \<Rightarrow> jsstring list" where
  "split [] sep = [[]]"
| "split (c # cs) sep =
     (if c = sep then [] # split cs sep
      else (case split cs sep of
              [] \<Rightarrow> [[c]]
            | p # ps \<Rightarrow> (c # p) # ps))"

text \<open>
  Matching with the flag \<^verbatim>\<open>i\<close> (no flag \<^verbatim>\<open>u\<close>) compares canonicalized code
  units; the canonical form of a code unit above 127 is never an ASCII one, so against
  a pattern of lower-case ASCII letters, digits and punctuation exactly the ASCII
  upper-case letters are folded.
\<close>

definition foldCase :: "16 word \<Rightarrow> 16 word" where
  "foldCase c = (if 0x41 \<le> c \<and> c \<le> 0x5A then c + 0x20 else c)"

section \<open>The data model\<close>

datatype ResourceType = PDF | VIDEO | LINK | DOC | IMAGE | PRESENTATION | SPREADSHEET | CODE

text \<open>The string value of each member of the enum \<^verbatim>\<open>ResourceType\<close>.\<close>

fun typeName :: "ResourceType \<Rightarrow> jsstring" where
  "typeName PDF = str ''PDF''"
| "typeName VIDEO = str ''VIDEO''"
| "typeName LINK = str ''LINK''"
| "typeName DOC = str ''DOC''"
| "typeName IMAGE = str ''IMAGE''"
| "typeName PRESENTATION = str ''PRESENTATION''"
| "typeName SPREADSHEET = str ''SPREADSHEET''"
| "typeName CODE = str ''CODE''"

datatype AcademicLevel = Undergraduate | Graduate | FacultyAdmin

fun levelName :: "AcademicLevel \<Rightarrow> jsstring" where
  "levelName Undergraduate = str ''Undergraduate''"
| "levelName Graduate = str ''Graduate''"
| "levelName FacultyAdmin = str ''Faculty/Admin''"

datatype Status = online | offline

text \<open>
  The interface \<^verbatim>\<open>Resource\<close>. An optional or nullable field is an option; the
  counters are numbers that the comparisons of the source only subtract and compare,
  which integers do in the same way. The field \<^verbatim>\<open>id\<close> is \<open>id_res\<close> here.
\<close>

record Resource =
  id_res :: jsstring
  title :: jsstring
  description :: jsstring
  type :: ResourceType
  department :: jsstring
  subject :: jsstring
  level :: AcademicLevel
  dateAdded :: jsstring
  url :: "jsstring option"
  external_url :: "jsstring option"
  tags :: "jsstring list"
  status :: Status
  relatedResourceIds :: "jsstring list option"
  views :: int
  downloads :: int
  original_filename :: "jsstring option"

section \<open>Filter Engine (App.tsx)\<close>

text \<open>
  \<^verbatim>\<open>filteredResources\<close>: the filter over the catalog, with the state variables it reads
  as arguments. \<^verbatim>\<open>String.prototype.toLowerCase\<close> is the platform's; it is the first
  argument.
\<close>

definition filteredResources ::
  "(jsstring \<Rightarrow> jsstring) \<Rightarrow> Resource list \<Rightarrow> jsstring \<Rightarrow> jsstring \<Rightarrow> jsstring list \<Rightarrow> jsstring
     \<Rightarrow> Resource list" where
  "filteredResources toLowerCase resources searchTerm activeFilter selectedSubjects selectedLevel =
     filter (\<lambda>res.
       if status res \<noteq> online then False
       else
         let matchesSearch =
               (str_includes (toLowerCase (title res)) (toLowerCase searchTerm)
                \<or> str_includes (toLowerCase (description res)) (toLowerCase searchTerm)
                \<or> list_ex (\<lambda>t. str_includes (toLowerCase t) (toLowerCase searchTerm)) (tags res));
             matchesType = (activeFilter = str ''All'' \<or> typeName (type res) = activeFilter);
             matchesSubject = (length selectedSubjects = 0 \<or> subject res \<in> set selectedSubjects);
             matchesLevel = (selectedLevel = str ''All'' \<or> levelName (level res) = selectedLevel)
         in matchesSearch \<and> matchesType \<and> matchesSubject \<and> matchesLevel)
     resources"

text \<open>
  \<^verbatim>\<open>Array.prototype.sort(compareFn)\<close>. The standard leaves the algorithm to the
  engine but requires a stable sort whenever the comparator is consistent, and that
  determines the result; insertion from the right is such a sort.
\<close>

fun insertBy :: "('a \<Rightarrow> 'a \<Rightarrow> int) \<Rightarrow> 'a \<Rightarrow> 'a list \<Rightarrow> 'a list" where
  "insertBy compareFn x [] = [x]"
| "insertBy compareFn x (y # ys) =
     (if compareFn x y \<le> 0 then x # y # ys else y # insertBy compareFn x ys)"

definition sortBy :: "('a \<Rightarrow> 'a \<Rightarrow> int) \<Rightarrow> 'a list \<Rightarrow> 'a list" where
  "sortBy compareFn xs = foldr (insertBy compareFn) xs []"

text \<open>\<^verbatim>\<open>popularResources\<close>: filter, sort by the comparator, \<^verbatim>\<open>slice(0, 4)\<close>.\<close>

definition popularSorted :: "Resource list \<Rightarrow> Resource list" where
  "popularSorted resources =
     sortBy (\<lambda>a b. views b - views a)
       (filter (\<lambda>r. status r = online \<and> views r > 0) resources)"

definition popularResources :: "Resource list \<Rightarrow> Resource list" where
  "popularResources resources = take 4 (popularSorted resources)"

definition isDefaultView :: "jsstring \<Rightarrow> jsstring \<Rightarrow> jsstring list \<Rightarrow> jsstring \<Rightarrow> bool" where
  "isDefaultView searchTerm activeFilter selectedSubjects selectedLevel \<longleftrightarrow>
     searchTerm = [] \<and> activeFilter = str ''All'' \<and> length selectedSubjects = 0
     \<and> selectedLevel = str ''All''"

text \<open>
  The condition under which the section "Most Popular Resources" is rendered:
  \<^verbatim>\<open>isDefaultView && popularResources.length > 0\<close>.
\<close>

definition showsPopular ::
  "Resource list \<Rightarrow> jsstring \<Rightarrow> jsstring \<Rightarrow> jsstring list \<Rightarrow> jsstring \<Rightarrow> bool" where
  "showsPopular resources searchTerm activeFilter selectedSubjects selectedLevel \<longleftrightarrow>
     isDefaultView searchTerm activeFilter selectedSubjects selectedLevel
     \<and> length (popularResources resources) > 0"

section \<open>Admin Form Controller (AdminConsole.tsx)\<close>

definition requiresUrlOnly :: "ResourceType \<Rightarrow> bool" where
  "requiresUrlOnly t \<longleftrightarrow> t = LINK"

definition allowsUploadOrLink :: "ResourceType \<Rightarrow> bool" where
  "allowsUploadOrLink t \<longleftrightarrow> t = VIDEO \<or> t = DOC \<or> t = PRESENTATION"

definition canUploadFile :: "ResourceType \<Rightarrow> bool" where
  "canUploadFile t \<longleftrightarrow> t = PDF \<or> allowsUploadOrLink t"

definition showsPrimaryUrlField :: "ResourceType \<Rightarrow> bool" where
  "showsPrimaryUrlField t \<longleftrightarrow> t = LINK \<or> allowsUploadOrLink t"

text \<open>
  \<^verbatim>\<open>getAcceptString\<close>, the file kinds the upload input accepts for the type of the form;
  the input is rendered only under \<open>canUploadFile\<close>.
\<close>

fun getAcceptString :: "ResourceType \<Rightarrow> jsstring" where
  "getAcceptString PDF = str ''.pdf''"
| "getAcceptString IMAGE = str ''image/*''"
| "getAcceptString VIDEO = str ''video/*''"
| "getAcceptString DOC = str ''.doc,.docx,.txt''"
| "getAcceptString PRESENTATION = str ''.ppt,.pptx,.key,.pdf''"
| "getAcceptString SPREADSHEET = str ''.xls,.xlsx,.csv''"
| "getAcceptString CODE = str ''.js,.py,.cpp,.java,.html,.css,.ts,.sql''"
| "getAcceptString LINK = str ''*/*''"

text \<open>A nullable string in a condition: \<^verbatim>\<open>null\<close> and the empty string are falsy.\<close>

fun truthy :: "jsstring option \<Rightarrow> bool" where
  "truthy None = False"
| "truthy (Some s) = (s \<noteq> [])"

text \<open>
  The \<^verbatim>\<open>disabled\<close> attribute of the submit button, from \<^verbatim>\<open>formData.type\<close>,
  \<^verbatim>\<open>formData.url\<close>, \<^verbatim>\<open>selectedFile\<close> and \<^verbatim>\<open>editingResourceId\<close>.
\<close>

definition submitDisabled ::
  "ResourceType \<Rightarrow> jsstring \<Rightarrow> 'file option \<Rightarrow> jsstring option \<Rightarrow> bool" where
  "submitDisabled formType formUrl selectedFile editingResourceId =
     (let hasUrl = (trim formUrl \<noteq> []) in
      if formType = LINK then \<not> hasUrl
      else if allowsUploadOrLink formType
        then selectedFile = None \<and> \<not> hasUrl \<and> \<not> truthy editingResourceId
      else selectedFile = None \<and> \<not> truthy editingResourceId)"

text \<open>
  The tags of the payload that \<^verbatim>\<open>handleSubmit\<close> sends: the text of the form split at
  commas, each piece trimmed, the empty pieces dropped; a single default tag if none is
  left. Equal pieces are all kept.
\<close>

definition processedTags :: "jsstring \<Rightarrow> jsstring list" where
  "processedTags formTags = filter (\<lambda>t. length t > 0) (map trim (split formTags 0x2C))"

definition payloadTags :: "jsstring \<Rightarrow> jsstring list" where
  "payloadTags formTags =
     (if length (processedTags formTags) > 0 then processedTags formTags
      else [str ''uncategorized''])"

section \<open>Tag Registry (AdminConsole.tsx, App.tsx)\<close>

definition rawTags :: "Resource list \<Rightarrow> jsstring list" where
  "rawTags resources = foldl (\<lambda>acc r. acc @ tags r) [] resources"

text \<open>
  \<^verbatim>\<open>Array.from(new Set(xs))\<close>: a Set keeps its elements in insertion order and ignores
  an element it already has.
\<close>

definition newSet :: "'a list \<Rightarrow> 'a list" where
  "newSet xs = foldl (\<lambda>acc x. if x \<in> set acc then acc else acc @ [x]) [] xs"

text \<open>
  The default \<^verbatim>\<open>sort()\<close> orders strings by their code units, a proper prefix first:
  the lexicographic order on \<open>jsstring\<close>.
\<close>

definition uniqueTags :: "Resource list \<Rightarrow> jsstring list" where
  "uniqueTags resources = sort (newSet (rawTags resources))"

text \<open>
  \<^verbatim>\<open>tagCounts\<close> is a plain object, built by \<^verbatim>\<open>acc[tag] = (acc[tag] || 0) + 1\<close>. The
  model is the map of its own properties. Reading a property the object does not own
  yields what it inherits from \<^verbatim>\<open>Object.prototype\<close>: a function for the names below,
  and adding 1 to a function gives a string, which is then stored. Writing
  \<^verbatim>\<open>__proto__\<close> with a string stores nothing.
\<close>

datatype jsvalue = Number nat | NotNumber

definition objectPrototypeNames :: "jsstring list" where
  "objectPrototypeNames = map str
     [''constructor'', ''hasOwnProperty'', ''isPrototypeOf'', ''propertyIsEnumerable'',
      ''toLocaleString'', ''toString'', ''valueOf'', ''__proto__'', ''__defineGetter__'',
      ''__defineSetter__'', ''__lookupGetter__'', ''__lookupSetter__'']"

definition countTag :: "(jsstring \<rightharpoonup> jsvalue) \<Rightarrow> jsstring \<Rightarrow> (jsstring \<rightharpoonup> jsvalue)" where
  "countTag acc tag =
     (case acc tag of
        Some (Number n) \<Rightarrow> acc(tag \<mapsto> Number (n + 1))
      | Some NotNumber \<Rightarrow> acc(tag \<mapsto> NotNumber)
      | None \<Rightarrow>
          if tag = str ''__proto__'' then acc
          else if tag \<in> set objectPrototypeNames then acc(tag \<mapsto> NotNumber)
          else acc(tag \<mapsto> Number 1))"

definition tagCounts :: "Resource list \<Rightarrow> (jsstring \<rightharpoonup> jsvalue)" where
  "tagCounts resources = foldl countTag Map.empty (rawTags resources)"

text \<open>The number an entry of \<^verbatim>\<open>tagCounts\<close> stands for, 0 when there is none.\<close>

definition numberOf :: "jsvalue option \<Rightarrow> nat" where
  "numberOf v = (case v of Some (Number n) \<Rightarrow> n | _ \<Rightarrow> 0)"

text \<open>
  \<^verbatim>\<open>handleBatchUpdateResources\<close> (App.tsx): a Map from id to the updated resource, a
  later update of the same id replacing an earlier one, applied to the catalog.
\<close>

definition handleBatchUpdateResources :: "Resource list \<Rightarrow> Resource list \<Rightarrow> Resource list" where
  "handleBatchUpdateResources updatedResources prev =
     (let updateMap = foldl (\<lambda>m r. m(id_res r \<mapsto> r)) Map.empty updatedResources
      in map (\<lambda>r. case updateMap (id_res r) of Some u \<Rightarrow> u | None \<Rightarrow> r) prev)"

text \<open>
  What a tag operation does: the batch it hands to \<^verbatim>\<open>onBatchUpdate\<close>, if it calls it,
  and the number of resources its notification reports, if it notifies.
\<close>

record TagOutcome =
  batchUpdate :: "Resource list option"
  reported :: "nat option"

definition handleRenameTag :: "(jsstring \<times> jsstring) option \<Rightarrow> Resource list \<Rightarrow> TagOutcome" where
  "handleRenameTag editingTag resources =
     (case editingTag of
        None \<Rightarrow> \<lparr>batchUpdate = None, reported = None\<rparr>
      | Some (original, current) \<Rightarrow>
          if trim current = [] \<or> current = original
          then \<lparr>batchUpdate = None, reported = None\<rparr>
          else
            let newTagName = trim current;
                oldTagName = original;
                updates = foldl (\<lambda>updates resource.
                  if oldTagName \<in> set (tags resource)
                  then
                    let updatedTags = map (\<lambda>t. if t = oldTagName then newTagName else t) (tags resource);
                        uniqueUpdatedTags = newSet updatedTags
                    in updates @ [resource\<lparr>tags := uniqueUpdatedTags\<rparr>]
                  else updates) [] resources
            in \<lparr>batchUpdate = (if length updates > 0 then Some updates else None),
                reported = Some (length updates)\<rparr>)"

definition handleDeleteTag :: "jsstring \<Rightarrow> Resource list \<Rightarrow> TagOutcome" where
  "handleDeleteTag tagToDelete resources =
     (let updates = foldl (\<lambda>updates resource.
            if tagToDelete \<in> set (tags resource)
            then
              let updatedTags = filter (\<lambda>t. t \<noteq> tagToDelete) (tags resource)
              in updates @ [resource\<lparr>tags := updatedTags\<rparr>]
            else updates) [] resources
      in \<lparr>batchUpdate = (if length updates > 0 then Some updates else None),
          reported = Some (length updates)\<rparr>)"

text \<open>The catalog after the operation: the batch, if any, goes through App.tsx.\<close>

definition catalogAfter :: "TagOutcome \<Rightarrow> Resource list \<Rightarrow> Resource list" where
  "catalogAfter outcome resources =
     (case batchUpdate outcome of
        None \<Rightarrow> resources
      | Some updates \<Rightarrow> handleBatchUpdateResources updates resources)"

section \<open>Preview Resolver (ResourceViewerModal)\<close>

text \<open>
  The tests on the file extension, such as
  \<^verbatim>\<open>/\.(doc|docx|ppt|pptx|xls|xlsx)$/i.test(url.split("?")[0])\<close>: the part before the
  first question mark ends, case folded, with a dot and one of the extensions.
\<close>

definition hasExtension :: "jsstring \<Rightarrow> jsstring list \<Rightarrow> bool" where
  "hasExtension u exts =
     (let path = (case split u 0x3F of [] \<Rightarrow> str ''undefined'' | p # _ \<Rightarrow> p)
      in list_ex (\<lambda>e. endsWith (map foldCase path) (str ''.'' @ e)) exts)"

definition isProbablyOfficeDoc :: "jsstring \<Rightarrow> bool" where
  "isProbablyOfficeDoc u =
     hasExtension u (map str [''doc'', ''docx'', ''ppt'', ''pptx'', ''xls'', ''xlsx''])"

definition isPdf :: "jsstring \<Rightarrow> bool" where
  "isPdf u = hasExtension u [str ''pdf'']"

definition isImage :: "jsstring \<Rightarrow> bool" where
  "isImage u = hasExtension u (map str [''png'', ''jpg'', ''jpeg'', ''gif'', ''webp'', ''svg''])"

definition isVideoFile :: "jsstring \<Rightarrow> bool" where
  "isVideoFile u = hasExtension u (map str [''mp4'', ''webm'', ''ogg'', ''mov'', ''m4v''])"

text \<open>
  The strings that \<^verbatim>\<open>^(https?:\/\/)?(www\.)?(h1|h2)\/\<close> accepts as a beginning: an
  optional scheme, an optional \<^verbatim>\<open>www.\<close>, one of the hosts, a slash.
\<close>

definition hostPrefixes :: "jsstring list \<Rightarrow> jsstring list" where
  "hostPrefixes hosts =
     [scheme @ www @ host @ str ''/''.
        scheme \<leftarrow> [[], str ''http://'', str ''https://''],
        www \<leftarrow> [[], str ''www.''],
        host \<leftarrow> hosts]"

definition isYouTubeUrl :: "jsstring \<Rightarrow> bool" where
  "isYouTubeUrl u =
     list_ex (startsWith (map foldCase u)) (hostPrefixes [str ''youtube.com'', str ''youtu.be''])"

definition isVimeoUrl :: "jsstring \<Rightarrow> bool" where
  "isVimeoUrl u = list_ex (startsWith (map foldCase u)) (hostPrefixes [str ''vimeo.com''])"

text \<open>
  What the resolver reads of a parsed \<^verbatim>\<open>URL\<close>: \<^verbatim>\<open>hostname\<close>, \<^verbatim>\<open>pathname\<close> and
  \<^verbatim>\<open>searchParams\<close>, the name-value pairs of the query in order
  (\<^verbatim>\<open>searchParams.get\<close> returns the value of the first pair with the name). The
  parser \<^verbatim>\<open>new URL(url)\<close> is the platform's: it is an argument \<open>parse\<close> of the
  functions below, \<open>None\<close> where the constructor throws.
\<close>

record URL =
  hostname :: jsstring
  pathname :: jsstring
  searchParams :: "(jsstring \<times> jsstring) list"

definition getYouTubeEmbedUrl :: "(jsstring \<Rightarrow> URL option) \<Rightarrow> jsstring \<Rightarrow> jsstring option" where
  "getYouTubeEmbedUrl parse u_str =
     (case parse u_str of
        None \<Rightarrow> None
      | Some u \<Rightarrow>
          if str_includes (hostname u) (str ''youtu.be'')
          then
            let ident = remove1 0x2F (pathname u)
            in if ident \<noteq> [] then Some (str ''https://www.youtube.com/embed/'' @ ident) else None
          else
            let ident = map_of (searchParams u) (str ''v'')
            in if truthy ident then Some (str ''https://www.youtube.com/embed/'' @ the ident)
               else if str_includes (pathname u) (str ''/embed/'') then Some u_str
               else None)"

definition getVimeoEmbedUrl :: "(jsstring \<Rightarrow> URL option) \<Rightarrow> jsstring \<Rightarrow> jsstring option" where
  "getVimeoEmbedUrl parse u_str =
     (case parse u_str of
        None \<Rightarrow> None
      | Some u \<Rightarrow>
          let parts = filter (\<lambda>p. p \<noteq> []) (split (pathname u) 0x2F)
          in (case parts of
                [] \<Rightarrow> None
              | ident # _ \<Rightarrow>
                  if ident \<noteq> [] then Some (str ''https://player.vimeo.com/video/'' @ ident)
                  else None))"

text \<open>
  \<^verbatim>\<open>encodeURIComponent\<close> (ECMAScript 19.2.6): an unreserved code unit stays; any other
  code point is written as the percent-escaped octets of its UTF-8 form; an unpaired
  surrogate throws a \<^verbatim>\<open>URIError\<close>.
\<close>

datatype error = URIError

definition uriUnescaped :: "16 word \<Rightarrow> bool" where
  "uriUnescaped c \<longleftrightarrow>
     (0x30 \<le> c \<and> c \<le> 0x39) \<or> (0x41 \<le> c \<and> c \<le> 0x5A) \<or> (0x61 \<le> c \<and> c \<le> 0x7A)
     \<or> c \<in> {0x2D, 0x5F, 0x2E, 0x21, 0x7E, 0x2A, 0x27, 0x28, 0x29}"

definition isLeadSurrogate :: "16 word \<Rightarrow> bool" where
  "isLeadSurrogate c \<longleftrightarrow> 0xD800 \<le> c \<and> c \<le> 0xDBFF"

definition isTrailSurrogate :: "16 word \<Rightarrow> bool" where
  "isTrailSurrogate c \<longleftrightarrow> 0xDC00 \<le> c \<and> c \<le> 0xDFFF"

definition utf8 :: "nat \<Rightarrow> nat list" where
  "utf8 cp =
     (if cp < 0x80 then [cp]
      else if cp < 0x800 then [0xC0 + cp div 0x40, 0x80 + cp mod 0x40]
      else if cp < 0x10000
        then [0xE0 + cp div 0x1000, 0x80 + (cp div 0x40) mod 0x40, 0x80 + cp mod 0x40]
      else [0xF0 + cp div 0x40000, 0x80 + (cp div 0x1000) mod 0x40,
            0x80 + (cp div 0x40) mod 0x40, 0x80 + cp mod 0x40])"

definition hexDigit :: "nat \<Rightarrow> 16 word" where
  "hexDigit n = (if n < 10 then 0x30 + of_nat n else 0x41 + of_nat (n - 10))"

definition percentEscape :: "nat list \<Rightarrow> jsstring" where
  "percentEscape octets = concat (map (\<lambda>b. [0x25, hexDigit (b div 16), hexDigit (b mod 16)]) octets)"

fun encodeURIComponent :: "jsstring \<Rightarrow> error + jsstring" where
  "encodeURIComponent [] = Inr []"
| "encodeURIComponent (c # cs) =
     (if uriUnescaped c then
        (case encodeURIComponent cs of Inl e \<Rightarrow> Inl e | Inr r \<Rightarrow> Inr (c # r))
      else if isTrailSurrogate c then Inl URIError
      else if isLeadSurrogate c then
        (case cs of
           [] \<Rightarrow> Inl URIError
         | d # ds \<Rightarrow>
             if isTrailSurrogate d then
               (case encodeURIComponent ds of
                  Inl e \<Rightarrow> Inl e
                | Inr r \<Rightarrow>
                    Inr (percentEscape
                           (utf8 ((unat c - 0xD800) * 0x400 + (unat d - 0xDC00) + 0x10000)) @ r))
             else Inl URIError)
      else
        (case encodeURIComponent cs of
           Inl e \<Rightarrow> Inl e
         | Inr r \<Rightarrow> Inr (percentEscape (utf8 (unat c)) @ r)))"

definition getOfficeViewerUrl :: "jsstring \<Rightarrow> error + jsstring" where
  "getOfficeViewerUrl fileUrl =
     (case encodeURIComponent fileUrl of
        Inl e \<Rightarrow> Inl e
      | Inr enc \<Rightarrow> Inr (str ''https://view.officeapps.live.com/op/embed.aspx?src='' @ enc))"

text \<open>
  \<^verbatim>\<open>parts.findIndex(p => p === "d")\<close>, which is -1 when there is none, and the
  element \<^verbatim>\<open>parts[idx + 1]\<close>, which is undefined past the end.
\<close>

fun findIndex :: "('a \<Rightarrow> bool) \<Rightarrow> 'a list \<Rightarrow> int" where
  "findIndex P [] = -1"
| "findIndex P (x # xs) =
     (if P x then 0 else (let i = findIndex P xs in if i < 0 then -1 else i + 1))"

definition element :: "'a list \<Rightarrow> int \<Rightarrow> 'a option" where
  "element xs i = (if 0 \<le> i \<and> i < int (length xs) then Some (xs ! nat i) else None)"

definition getGoogleDrivePreviewUrl :: "(jsstring \<Rightarrow> URL option) \<Rightarrow> jsstring \<Rightarrow> jsstring option" where
  "getGoogleDrivePreviewUrl parse u_str =
     (case parse u_str of
        None \<Rightarrow> None
      | Some u \<Rightarrow>
          if str_includes (hostname u) (str ''drive.google.com'')
             \<and> str_includes (pathname u) (str ''/file/d/'')
          then
            let parts = split (pathname u) 0x2F;
                idx = findIndex (\<lambda>p. p = str ''d'') parts;
                ident = (if idx \<ge> 0 then element parts (idx + 1) else None)
            in if truthy ident
               then Some (str ''https://drive.google.com/file/d/'' @ the ident @ str ''/preview'')
               else None
          else if str_includes (hostname u) (str ''docs.google.com'')
                  \<and> (str_includes (pathname u) (str ''/document/d/'')
                       \<or> str_includes (pathname u) (str ''/presentation/d/'')
                       \<or> str_includes (pathname u) (str ''/spreadsheets/d/''))
          then
            let parts = split (pathname u) 0x2F;
                dIndex = findIndex (\<lambda>p. p = str ''d'') parts;
                ident = (if dIndex \<ge> 0 then element parts (dIndex + 1) else None)
            in if \<not> truthy ident then None
               else if str_includes (pathname u) (str ''/document/d/'')
                 then Some (str ''https://docs.google.com/document/d/'' @ the ident @ str ''/preview'')
               else if str_includes (pathname u) (str ''/presentation/d/'')
                 then Some (str ''https://docs.google.com/presentation/d/'' @ the ident @ str ''/preview'')
               else if str_includes (pathname u) (str ''/spreadsheets/d/'')
                 then Some (str ''https://docs.google.com/spreadsheets/d/'' @ the ident @ str ''/preview'')
               else None
          else None)"

datatype PreviewKind = KindNone | KindIframe | KindImage | KindVideo | KindPdf | KindLink

record Preview =
  kind :: PreviewKind
  preview_url :: jsstring

text \<open>
  The local constant \<^verbatim>\<open>candidate\<close> of \<^verbatim>\<open>getBestPreviewUrl\<close>:
  \<^verbatim>\<open>primary || external || ""\<close>, both trimmed, a missing field counting as empty.
\<close>

definition candidate :: "Resource \<Rightarrow> jsstring" where
  "candidate resource =
     (let primary = trim (case url resource of None \<Rightarrow> [] | Some s \<Rightarrow> s);
          external = trim (case external_url resource of None \<Rightarrow> [] | Some s \<Rightarrow> s)
      in if primary \<noteq> [] then primary else if external \<noteq> [] then external else [])"

text \<open>
  \<^verbatim>\<open>getBestPreviewUrl\<close>. The result is \<open>Inr\<close> of the object returned, or \<open>Inl\<close> of the
  exception that leaves the function. The failures of \<^verbatim>\<open>new URL\<close> are caught inside
  the helpers above; \<^verbatim>\<open>encodeURIComponent\<close> is called outside any \<^verbatim>\<open>try\<close>.
\<close>

definition getBestPreviewUrl :: "(jsstring \<Rightarrow> URL option) \<Rightarrow> Resource \<Rightarrow> error + Preview" where
  "getBestPreviewUrl parse resource =
     (let c = candidate resource in
      if c = [] then Inr \<lparr>kind = KindNone, preview_url = []\<rparr>
      else if isYouTubeUrl c \<and> truthy (getYouTubeEmbedUrl parse c)
        then Inr \<lparr>kind = KindIframe, preview_url = the (getYouTubeEmbedUrl parse c)\<rparr>
      else if isVimeoUrl c \<and> truthy (getVimeoEmbedUrl parse c)
        then Inr \<lparr>kind = KindIframe, preview_url = the (getVimeoEmbedUrl parse c)\<rparr>
      else if truthy (getGoogleDrivePreviewUrl parse c)
        then Inr \<lparr>kind = KindIframe, preview_url = the (getGoogleDrivePreviewUrl parse c)\<rparr>
      else if isProbablyOfficeDoc c
        then (case getOfficeViewerUrl c of
                Inl e \<Rightarrow> Inl e
              | Inr v \<Rightarrow> Inr \<lparr>kind = KindIframe, preview_url = v\<rparr>)
      else if isPdf c then Inr \<lparr>kind = KindPdf, preview_url = c\<rparr>
      else if isImage c then Inr \<lparr>kind = KindImage, preview_url = c\<rparr>
      else if isVideoFile c then Inr \<lparr>kind = KindVideo, preview_url = c\<rparr>
      else Inr \<lparr>kind = KindLink, preview_url = c\<rparr>)"

section \<open>Example data\<close>

text \<open>A resource for the examples; each example changes the fields it is about.\<close>

definition baseResource :: Resource where
  "baseResource =
     \<lparr>id_res = str ''r0'', title = str ''Lecture notes'', description = str ''Week 1'',
      type = PDF, department = str ''CS'', subject = str ''Algorithms'',
      level = Undergraduate, dateAdded = str ''2024-01-15'', url = None,
      external_url = None, tags = [], status = online, relatedResourceIds = None,
      views = 0, downloads = 0, original_filename = None\<rparr>"

text \<open>
  What \<^verbatim>\<open>new URL\<close> gives on the strings of the examples: the three with a scheme and
  a host parse; the others have no scheme (\<^verbatim>\<open>youtu.be/abc123\<close>) or do not start
  with a letter, and the constructor throws without a base URL.
\<close>

definition exampleURL :: "jsstring \<Rightarrow> URL option" where
  "exampleURL s =
     (if s = str ''https://youtu.be/abc123''
        then Some \<lparr>hostname = str ''youtu.be'', pathname = str ''/abc123'', searchParams = []\<rparr>
      else if s = str ''https://youtube.com/embed/abc123''
        then Some \<lparr>hostname = str ''youtube.com'', pathname = str ''/embed/abc123'',
                   searchParams = []\<rparr>
      else if s = str ''https://www.youtube.com/watch?v=abc123''
        then Some \<lparr>hostname = str ''www.youtube.com'', pathname = str ''/watch'',
                   searchParams = [(str ''v'', str ''abc123'')]\<rparr>
      else None)"

definition exampleCatalog :: "Resource list" where
  "exampleCatalog =
     [baseResource\<lparr>id_res := str ''a'', views := 3\<rparr>,
      baseResource\<lparr>id_res := str ''b'', views := 7\<rparr>,
      baseResource\<lparr>id_res := str ''c'', views := 3\<rparr>,
      baseResource\<lparr>id_res := str ''d'', views := 9, status := offline\<rparr>,
      baseResource\<lparr>id_res := str ''e''\<rparr>,
      baseResource\<lparr>id_res := str ''f'', views := 5\<rparr>,
      baseResource\<lparr>id_res := str ''g'', views := 1\<rparr>]"

definition exampleTagged :: "Resource list" where
  "exampleTagged =
     [baseResource\<lparr>id_res := str ''r1'', tags := [str ''exam-prep'']\<rparr>,
      baseResource\<lparr>id_res := str ''r2'', tags := [str ''exam'', str ''exam-prep'']\<rparr>,
      baseResource\<lparr>id_res := str ''r3'', tags := [str ''exam-prep'', str ''midterm'', str ''midterm'']\<rparr>,
      baseResource\<lparr>id_res := str ''r4'', tags := [str ''syllabus'']\<rparr>]"

section \<open>Properties of the string operations\<close>

lemma startsWith_Nil: "startsWith s []"
  by (simp add: startsWith_def)

lemma str_includes_Nil: "str_includes s []"
  by (cases s) (simp_all add: startsWith_Nil)

section \<open>Properties of the Filter Engine\<close>

text \<open>
  C1. With the empty search term, the type filter "All", no selected subject and the
  level filter "All", the Filter Engine returns exactly the online resources, in catalog
  order. The lower-casing of the platform is only asked to map the empty string to itself.
\<close>

theorem filteredResources_default:
  assumes "toLowerCase [] = []"
  shows "filteredResources toLowerCase resources [] (str ''All'') [] (str ''All'')
         = filter (\<lambda>res. status res = online) resources"
  using assms by (simp add: filteredResources_def str_includes_Nil)

theorem filteredResources_default_witness:
  "map foldCase [] = [] \<and>
   filteredResources (map foldCase)
     [baseResource, baseResource\<lparr>id_res := str ''r1'', status := offline\<rparr>,
      baseResource\<lparr>id_res := str ''r2''\<rparr>]
     [] (str ''All'') [] (str ''All'')
   = [baseResource, baseResource\<lparr>id_res := str ''r2''\<rparr>]"
  using filteredResources_default [of "map foldCase"
      "[baseResource, baseResource\<lparr>id_res := str ''r1'', status := offline\<rparr>,
        baseResource\<lparr>id_res := str ''r2''\<rparr>]"]
  by (simp add: baseResource_def)

section \<open>Properties of the popular ranking\<close>

lemma mset_insertBy: "mset (insertBy f x xs) = add_mset x (mset xs)"
  by (induction xs) auto

lemma mset_sortBy: "mset (sortBy f xs) = mset xs"
  by (induction xs) (auto simp: sortBy_def mset_insertBy)

lemma set_insertBy: "set (insertBy f x xs) = insert x (set xs)"
  by (induction xs) auto

text \<open>For a comparator that subtracts a key, the sort is descending in the key.\<close>

lemma sorted_insertBy:
  "sorted_wrt (\<lambda>a b. k b \<le> k a) xs \<Longrightarrow>
   sorted_wrt (\<lambda>a b. k b \<le> k a) (insertBy (\<lambda>a b. k b - k a) x xs)"
  for k :: "'a \<Rightarrow> int"
  by (induction xs) (auto simp: set_insertBy)

lemma sorted_sortBy:
  "sorted_wrt (\<lambda>a b. k b \<le> k a) (sortBy (\<lambda>a b. k b - k a) xs)"
  for k :: "'a \<Rightarrow> int"
  by (induction xs) (auto simp: sortBy_def sorted_insertBy)

text \<open>Stability: the elements of one key keep their order.\<close>

lemma filter_insertBy:
  "filter (\<lambda>r. k r = v) (insertBy (\<lambda>a b. k b - k a) x xs) =
     (if k x = v then x # filter (\<lambda>r. k r = v) xs else filter (\<lambda>r. k r = v) xs)"
  for k :: "'a \<Rightarrow> int"
  by (induction xs) auto

lemma filter_sortBy:
  "filter (\<lambda>r. k r = v) (sortBy (\<lambda>a b. k b - k a) xs) = filter (\<lambda>r. k r = v) xs"
  for k :: "'a \<Rightarrow> int"
  by (induction xs) (auto simp: sortBy_def filter_insertBy)

text \<open>
  C5. The popular ranking is the first four of a list that holds exactly the online
  resources with a positive view count, is descending in the view count, and keeps
  resources of equal view count in catalog order. The section that shows the ranking is
  rendered only in the default view: empty search, type filter "All", no subject
  selected, level filter "All".
\<close>

theorem popularResources_ranking:
  "mset (popularSorted resources)
     = mset (filter (\<lambda>r. status r = online \<and> views r > 0) resources)
   \<and> sorted_wrt (\<lambda>a b. views a \<ge> views b) (popularSorted resources)
   \<and> (\<forall>v. filter (\<lambda>r. views r = v) (popularSorted resources)
          = filter (\<lambda>r. views r = v) (filter (\<lambda>r. status r = online \<and> views r > 0) resources))
   \<and> popularResources resources = take 4 (popularSorted resources)
   \<and> (showsPopular resources searchTerm activeFilter selectedSubjects selectedLevel
        \<longrightarrow> searchTerm = [] \<and> activeFilter = str ''All'' \<and> selectedSubjects = []
            \<and> selectedLevel = str ''All'')"
  unfolding popularSorted_def popularResources_def showsPopular_def isDefaultView_def
  by (simp add: mset_sortBy sorted_sortBy filter_sortBy)

theorem popularResources_ranking_witness:
  "showsPopular exampleCatalog [] (str ''All'') [] (str ''All'')
   \<and> popularResources exampleCatalog =
     [baseResource\<lparr>id_res := str ''b'', views := 7\<rparr>,
      baseResource\<lparr>id_res := str ''f'', views := 5\<rparr>,
      baseResource\<lparr>id_res := str ''a'', views := 3\<rparr>,
      baseResource\<lparr>id_res := str ''c'', views := 3\<rparr>]
   \<and> sorted_wrt (\<lambda>a b. views a \<ge> views b) (popularSorted exampleCatalog)"
  using popularResources_ranking [of exampleCatalog "[]" "str ''All''" "[]" "str ''All''"]
  by (simp add: showsPopular_def isDefaultView_def popularResources_def popularSorted_def
        sortBy_def exampleCatalog_def baseResource_def)

section \<open>Properties of the Admin Form Controller\<close>

lemma trim_Nil: "trim [] = []"
  by (simp add: trim_def)

lemma upload_only_types:
  "t \<noteq> LINK \<and> \<not> allowsUploadOrLink t \<longleftrightarrow> t \<in> {PDF, IMAGE, SPREADSHEET, CODE}"
  by (cases t) (simp_all add: allowsUploadOrLink_def)

lemma truthy_Some: "truthy e \<Longrightarrow> e \<noteq> None"
  by (cases e) simp_all

text \<open>
  C6. The submit control is enabled exactly when the type is LINK and the trimmed URL is
  not empty, or the type allows upload or link and a file is attached, the trimmed URL is
  not empty or a resource is being edited, or the type is upload-only and a file is
  attached or a resource is being edited; a resource counts as being edited when the id
  edited is not empty. In every other state the control is disabled, so it is disabled
  unless the conditions hold with the URL as it is typed. With the type LINK the empty
  URL leaves the control disabled and a URL with a character other than white space
  enables it.
\<close>

theorem submitDisabled_rule:
  "(submitDisabled t u f e \<longleftrightarrow>
      \<not> ((t = LINK \<and> trim u \<noteq> [])
         \<or> (allowsUploadOrLink t \<and> (f \<noteq> None \<or> trim u \<noteq> [] \<or> truthy e))
         \<or> (t \<in> {PDF, IMAGE, SPREADSHEET, CODE} \<and> (f \<noteq> None \<or> truthy e))))
   \<and> (\<not> submitDisabled t u f e \<longrightarrow>
        (t = LINK \<and> u \<noteq> [])
        \<or> (allowsUploadOrLink t \<and> (f \<noteq> None \<or> u \<noteq> [] \<or> e \<noteq> None))
        \<or> (t \<in> {PDF, IMAGE, SPREADSHEET, CODE} \<and> (f \<noteq> None \<or> e \<noteq> None)))
   \<and> (t = LINK \<and> u = [] \<longrightarrow> submitDisabled t u f e)
   \<and> (t = LINK \<and> trim u \<noteq> [] \<longrightarrow> \<not> submitDisabled t u f e)"
proof -
  have nonempty: "trim u \<noteq> [] \<Longrightarrow> u \<noteq> []"
    using trim_Nil by auto
  have exact: "submitDisabled t u f e \<longleftrightarrow>
      \<not> ((t = LINK \<and> trim u \<noteq> [])
         \<or> (allowsUploadOrLink t \<and> (f \<noteq> None \<or> trim u \<noteq> [] \<or> truthy e))
         \<or> (t \<in> {PDF, IMAGE, SPREADSHEET, CODE} \<and> (f \<noteq> None \<or> truthy e)))"
    using upload_only_types [of t]
    by (auto simp: submitDisabled_def Let_def allowsUploadOrLink_def)
  show ?thesis
    using exact nonempty truthy_Some [of e] trim_Nil
    by (auto simp: allowsUploadOrLink_def)
qed

theorem submitDisabled_rule_witness:
  "submitDisabled LINK [] (None :: unit option) None
   \<and> \<not> submitDisabled LINK (str ''https://example.edu'') (None :: unit option) None
   \<and> \<not> submitDisabled VIDEO [] (Some ()) None
   \<and> \<not> submitDisabled IMAGE [] (None :: unit option) (Some (str ''r0''))"
  using submitDisabled_rule [of LINK "[]" "None :: unit option" None]
    submitDisabled_rule [of LINK "str ''https://example.edu''" "None :: unit option" None]
    submitDisabled_rule [of VIDEO "[]" "Some ()" None]
    submitDisabled_rule [of IMAGE "[]" "None :: unit option" "Some (str ''r0'')"]
  by (simp add: trim_def isWhiteSpace_def str_def allowsUploadOrLink_def)

text \<open>
  A URL of white space only is not empty, and the control stays disabled: the test is on
  the trimmed URL.
\<close>

theorem submitDisabled_whitespace_counterexample:
  "str '' '' \<noteq> [] \<and> submitDisabled LINK (str '' '') (None :: unit option) None
   \<and> [0x00A0] \<noteq> [] \<and> submitDisabled LINK [0x00A0] (None :: unit option) None"
  by (simp add: submitDisabled_def trim_def isWhiteSpace_def str_def)

text \<open>
  C7. The upload area of the form is rendered under \<open>canUploadFile\<close>. It holds for PDF
  and fails for IMAGE, SPREADSHEET and CODE, although the form keeps for each of the
  three the file kinds its upload input would accept.
\<close>

theorem canUploadFile_upload_only_types:
  "canUploadFile PDF \<and> canUploadFile IMAGE = False \<and> canUploadFile SPREADSHEET = False
   \<and> canUploadFile CODE = False
   \<and> getAcceptString IMAGE = str ''image/*''
   \<and> getAcceptString SPREADSHEET = str ''.xls,.xlsx,.csv''
   \<and> getAcceptString CODE = str ''.js,.py,.cpp,.java,.html,.css,.ts,.sql''"
  by (simp add: canUploadFile_def allowsUploadOrLink_def)

section \<open>Properties of the Tag Registry\<close>

lemma foldl_append_tags: "foldl (\<lambda>acc r. acc @ tags r) a rs = a @ concat (map tags rs)"
  by (induction rs arbitrary: a) simp_all

lemma rawTags_concat: "rawTags rs = concat (map tags rs)"
  by (simp add: rawTags_def foldl_append_tags)

lemma set_rawTags: "set (rawTags rs) = (\<Union>r \<in> set rs. set (tags r))"
  by (simp add: rawTags_concat)

lemma set_newSet_aux:
  "set (foldl (\<lambda>acc x. if x \<in> set acc then acc else acc @ [x]) a xs) = set a \<union> set xs"
  by (induction xs arbitrary: a) auto

lemma distinct_newSet_aux:
  "distinct a \<Longrightarrow> distinct (foldl (\<lambda>acc x. if x \<in> set acc then acc else acc @ [x]) a xs)"
  by (induction xs arbitrary: a) auto

lemma set_newSet: "set (newSet xs) = set xs"
  by (simp add: newSet_def set_newSet_aux)

lemma distinct_newSet: "distinct (newSet xs)"
  by (simp add: newSet_def distinct_newSet_aux)

lemma count_list_distinct: "distinct xs \<Longrightarrow> x \<in> set xs \<Longrightarrow> count_list xs x = 1"
  by (induction xs) auto

lemma uniqueTags_props:
  "sorted (uniqueTags rs) \<and> distinct (uniqueTags rs)
   \<and> set (uniqueTags rs) = (\<Union>r \<in> set rs. set (tags r))"
  by (simp add: uniqueTags_def distinct_newSet set_newSet set_rawTags)

lemma countTag_other: "x \<noteq> tag \<Longrightarrow> countTag m x tag = m tag"
  by (auto simp: countTag_def split: option.splits jsvalue.splits)

lemma tagCounts_absent_aux: "tag \<notin> set xs \<Longrightarrow> foldl countTag m xs tag = m tag"
  by (induction xs arbitrary: m) (auto simp: countTag_other)

lemma tagCounts_absent: "tag \<notin> set (rawTags rs) \<Longrightarrow> tagCounts rs tag = None"
  by (simp add: tagCounts_def tagCounts_absent_aux)

lemma proto_in_names: "str ''__proto__'' \<in> set objectPrototypeNames"
  by (simp add: objectPrototypeNames_def)

lemma countTag_same:
  "tag \<notin> set objectPrototypeNames \<Longrightarrow> m tag \<noteq> Some NotNumber \<Longrightarrow>
   countTag m tag tag = Some (Number (numberOf (m tag) + 1))"
  using proto_in_names
  by (auto simp: countTag_def numberOf_def split: option.splits jsvalue.splits)

lemma tagCounts_aux:
  "tag \<notin> set objectPrototypeNames \<Longrightarrow> m tag \<noteq> Some NotNumber \<Longrightarrow>
   foldl countTag m xs tag =
     (if count_list xs tag = 0 then m tag else Some (Number (numberOf (m tag) + count_list xs tag)))"
proof (induction xs arbitrary: m)
  case Nil
  then show ?case by simp
next
  case (Cons x xs)
  show ?case
  proof (cases "x = tag")
    case True
    have step: "countTag m tag tag = Some (Number (numberOf (m tag) + 1))"
      using Cons.prems by (rule countTag_same)
    then have ok: "countTag m tag tag \<noteq> Some NotNumber" by simp
    have "foldl countTag (countTag m tag) xs tag =
       (if count_list xs tag = 0 then countTag m tag tag
        else Some (Number (numberOf (countTag m tag tag) + count_list xs tag)))"
      using Cons.IH [of "countTag m tag", OF Cons.prems(1) ok] .
    then show ?thesis
      using True step by (simp add: numberOf_def)
  next
    case False
    then have same: "countTag m x tag = m tag" by (rule countTag_other)
    then have ok: "countTag m x tag \<noteq> Some NotNumber" using Cons.prems by simp
    show ?thesis
      using Cons.IH [of "countTag m x", OF Cons.prems(1) ok] False same by simp
  qed
qed

lemma count_list_concat: "count_list (concat xss) x = sum_list (map (\<lambda>xs. count_list xs x) xss)"
  by (induction xss) simp_all

lemma tagCounts_occurrences:
  "tag \<notin> set objectPrototypeNames \<Longrightarrow>
   tagCounts rs tag =
     (if count_list (rawTags rs) tag = 0 then None else Some (Number (count_list (rawTags rs) tag)))"
  using tagCounts_aux [of tag Map.empty "rawTags rs"]
  by (simp add: tagCounts_def numberOf_def)

lemma count_rawTags_distinct:
  "\<forall>r \<in> set rs. distinct (tags r) \<Longrightarrow>
   count_list (rawTags rs) tag = length (filter (\<lambda>r. tag \<in> set (tags r)) rs)"
  by (induction rs) (auto simp: rawTags_concat count_list_distinct count_list_0_iff)

lemma foldl_push:
  "foldl (\<lambda>updates r. if P r then updates @ [g r] else updates) a rs = a @ map g (filter P rs)"
  by (induction rs arbitrary: a) simp_all

lemma updateMap_map_of:
  "foldl (\<lambda>m r. m(id_res r \<mapsto> r)) m us = m ++ map_of (rev (map (\<lambda>r. (id_res r, r)) us))"
proof (induction us rule: rev_induct)
  case Nil
  show ?case by simp
next
  case (snoc u us)
  have "foldl (\<lambda>m r. m(id_res r \<mapsto> r)) m (us @ [u])
        = (foldl (\<lambda>m r. m(id_res r \<mapsto> r)) m us)(id_res u \<mapsto> u)"
    by simp
  also have "\<dots> = (m ++ map_of (rev (map (\<lambda>r. (id_res r, r)) us)))(id_res u \<mapsto> u)"
    by (simp only: snoc.IH)
  also have "\<dots> = m ++ (map_of (rev (map (\<lambda>r. (id_res r, r)) us)))(id_res u \<mapsto> u)"
    by (simp only: map_add_upd)
  also have "(map_of (rev (map (\<lambda>r. (id_res r, r)) us)))(id_res u \<mapsto> u)
        = map_of (rev (map (\<lambda>r. (id_res r, r)) (us @ [u])))"
    by simp
  finally show ?case .
qed

lemma updateMap_untouched:
  "k \<notin> id_res ` set us \<Longrightarrow> foldl (\<lambda>m r. m(id_res r \<mapsto> r)) m us k = m k"
proof -
  assume "k \<notin> id_res ` set us"
  then have "map_of (rev (map (\<lambda>r. (id_res r, r)) us)) k = None"
    by (simp add: map_of_eq_None_iff image_image)
  then show ?thesis
    by (simp add: updateMap_map_of map_add_def)
qed

lemma updateMap_member:
  "foldl (\<lambda>m r. m(id_res r \<mapsto> r)) Map.empty us k = Some u \<Longrightarrow> u \<in> set us"
proof -
  assume "foldl (\<lambda>m r. m(id_res r \<mapsto> r)) Map.empty us k = Some u"
  then have "map_of (rev (map (\<lambda>r. (id_res r, r)) us)) k = Some u"
    by (simp add: updateMap_map_of)
  then have "(k, u) \<in> set (rev (map (\<lambda>r. (id_res r, r)) us))"
    by (rule map_of_SomeD)
  then show ?thesis by auto
qed

lemma updateMap_defined:
  "k \<in> id_res ` set us \<Longrightarrow> foldl (\<lambda>m r. m(id_res r \<mapsto> r)) Map.empty us k \<noteq> None"
proof -
  assume "k \<in> id_res ` set us"
  then have "map_of (rev (map (\<lambda>r. (id_res r, r)) us)) k \<noteq> None"
    by (simp add: map_of_eq_None_iff image_image)
  then show ?thesis
    by (simp add: updateMap_map_of)
qed

lemma updateMap_distinct:
  "distinct (map id_res us) \<Longrightarrow> u \<in> set us \<Longrightarrow>
   foldl (\<lambda>m r. m(id_res r \<mapsto> r)) Map.empty us (id_res u) = Some u"
proof -
  assume d: "distinct (map id_res us)" and u: "u \<in> set us"
  have "distinct (map fst (rev (map (\<lambda>r. (id_res r, r)) us)))"
    using d by (simp add: rev_map [symmetric] comp_def)
  moreover have "(id_res u, u) \<in> set (rev (map (\<lambda>r. (id_res r, r)) us))"
    using u by auto
  ultimately have "map_of (rev (map (\<lambda>r. (id_res r, r)) us)) (id_res u) = Some u"
    by (rule map_of_is_SomeI)
  then show ?thesis
    by (simp add: updateMap_map_of)
qed

lemma batch_map_filter:
  assumes ids: "distinct (map id_res rs)" and keep: "\<And>r. id_res (g r) = id_res r"
  shows "handleBatchUpdateResources (map g (filter P rs)) rs = map (\<lambda>r. if P r then g r else r) rs"
proof -
  let ?us = "map g (filter P rs)"
  let ?m = "foldl (\<lambda>m r. m(id_res r \<mapsto> r)) Map.empty ?us"
  have ids_us: "map id_res ?us = map id_res (filter P rs)"
    by (simp add: keep)
  have dist_us: "distinct (map id_res ?us)"
    unfolding ids_us using ids by (simp add: distinct_map_filter)
  have "(case ?m (id_res r) of Some u \<Rightarrow> u | None \<Rightarrow> r) = (if P r then g r else r)"
    if r: "r \<in> set rs" for r
  proof (cases "P r")
    case True
    then have "g r \<in> set ?us" using r by simp
    then have "?m (id_res (g r)) = Some (g r)"
      using dist_us by (rule updateMap_distinct [rotated])
    then show ?thesis using True by (simp add: keep)
  next
    case False
    have "id_res r \<notin> id_res ` set ?us"
    proof
      assume "id_res r \<in> id_res ` set ?us"
      then obtain r' where r': "r' \<in> set rs" "P r'" "id_res r' = id_res r"
        by (auto simp: keep)
      then have "r' = r" using ids r by (auto simp: distinct_map inj_on_def)
      then show False using r' False by simp
    qed
    then have "?m (id_res r) = None" by (simp add: updateMap_untouched)
    then show ?thesis using False by simp
  qed
  then show ?thesis
    by (simp add: handleBatchUpdateResources_def Let_def cong: map_cong)
qed

lemma deleteTag_updates:
  "handleDeleteTag tag rs =
     (let us = map (\<lambda>r. r\<lparr>tags := filter (\<lambda>t. t \<noteq> tag) (tags r)\<rparr>) (filter (\<lambda>r. tag \<in> set (tags r)) rs)
      in \<lparr>batchUpdate = (if us \<noteq> [] then Some us else None), reported = Some (length us)\<rparr>)"
  unfolding handleDeleteTag_def Let_def foldl_push by simp

lemma renameTag_updates:
  "trim cur \<noteq> [] \<Longrightarrow> cur \<noteq> old \<Longrightarrow>
   handleRenameTag (Some (old, cur)) rs =
     (let us = map (\<lambda>r. r\<lparr>tags := newSet (map (\<lambda>t. if t = old then trim cur else t) (tags r))\<rparr>)
                 (filter (\<lambda>r. old \<in> set (tags r)) rs)
      in \<lparr>batchUpdate = (if us \<noteq> [] then Some us else None), reported = Some (length us)\<rparr>)"
  unfolding handleRenameTag_def Let_def foldl_push by simp

lemma batch_sound:
  assumes upd: "\<And>u. u \<in> set us \<Longrightarrow> Q u"
    and rest: "\<And>r. r \<in> set rs \<Longrightarrow> id_res r \<notin> id_res ` set us \<Longrightarrow> Q r"
  shows "\<forall>r \<in> set (handleBatchUpdateResources us rs). Q r"
proof
  fix r' assume "r' \<in> set (handleBatchUpdateResources us rs)"
  then obtain r where r: "r \<in> set rs"
    and r': "r' = (case foldl (\<lambda>m r. m(id_res r \<mapsto> r)) Map.empty us (id_res r) of Some u \<Rightarrow> u | None \<Rightarrow> r)"
    by (auto simp: handleBatchUpdateResources_def Let_def)
  show "Q r'"
  proof (cases "foldl (\<lambda>m r. m(id_res r \<mapsto> r)) Map.empty us (id_res r)")
    case None
    then have "id_res r \<notin> id_res ` set us" using updateMap_defined by blast
    then show ?thesis using rest r r' None by simp
  next
    case (Some u)
    then have "u \<in> set us" by (rule updateMap_member)
    then show ?thesis using upd r' Some by simp
  qed
qed

lemma catalogAfter_delete:
  "catalogAfter (handleDeleteTag tag rs) rs =
     (let us = map (\<lambda>r. r\<lparr>tags := filter (\<lambda>t. t \<noteq> tag) (tags r)\<rparr>) (filter (\<lambda>r. tag \<in> set (tags r)) rs)
      in if us \<noteq> [] then handleBatchUpdateResources us rs else rs)"
  by (simp add: catalogAfter_def deleteTag_updates Let_def)

lemma delete_removes:
  "\<forall>r \<in> set (catalogAfter (handleDeleteTag tag rs) rs). tag \<notin> set (tags r)"
proof (cases "filter (\<lambda>r. tag \<in> set (tags r)) rs = []")
  case True
  then have "\<forall>r \<in> set rs. tag \<notin> set (tags r)"
    by (simp add: filter_empty_conv)
  then show ?thesis using True by (simp add: catalogAfter_delete)
next
  case False
  let ?us = "map (\<lambda>r. r\<lparr>tags := filter (\<lambda>t. t \<noteq> tag) (tags r)\<rparr>) (filter (\<lambda>r. tag \<in> set (tags r)) rs)"
  have after: "catalogAfter (handleDeleteTag tag rs) rs = handleBatchUpdateResources ?us rs"
    using False by (simp add: catalogAfter_delete)
  have "\<forall>r \<in> set (handleBatchUpdateResources ?us rs). tag \<notin> set (tags r)"
  proof (rule batch_sound)
    fix u assume "u \<in> set ?us"
    then show "tag \<notin> set (tags u)" by auto
  next
    fix r assume r: "r \<in> set rs" and none: "id_res r \<notin> id_res ` set ?us"
    show "tag \<notin> set (tags r)"
    proof
      assume "tag \<in> set (tags r)"
      then have "r\<lparr>tags := filter (\<lambda>t. t \<noteq> tag) (tags r)\<rparr> \<in> set ?us" using r by simp
      then have "id_res (r\<lparr>tags := filter (\<lambda>t. t \<noteq> tag) (tags r)\<rparr>) \<in> id_res ` set ?us"
        by (rule imageI)
      then show False using none by simp
    qed
  qed
  then show ?thesis by (simp only: after)
qed

text \<open>
  C8. Deleting a tag reports the number of resources that contain it; afterwards no
  resource of the catalog contains it and \<open>tagCounts\<close> has no entry for it. In a
  catalog with unique ids every resource that contained the tag keeps its other tags as
  they were, repetitions included, and the other resources are unchanged.
\<close>

theorem handleDeleteTag_rule:
  "reported (handleDeleteTag tag rs) = Some (length (filter (\<lambda>r. tag \<in> set (tags r)) rs))
   \<and> (\<forall>r \<in> set (catalogAfter (handleDeleteTag tag rs) rs). tag \<notin> set (tags r))
   \<and> tagCounts (catalogAfter (handleDeleteTag tag rs) rs) tag = None
   \<and> (distinct (map id_res rs) \<longrightarrow>
        catalogAfter (handleDeleteTag tag rs) rs
        = map (\<lambda>r. if tag \<in> set (tags r) then r\<lparr>tags := filter (\<lambda>t. t \<noteq> tag) (tags r)\<rparr> else r) rs)"
proof -
  have count: "reported (handleDeleteTag tag rs) = Some (length (filter (\<lambda>r. tag \<in> set (tags r)) rs))"
    by (simp add: deleteTag_updates Let_def)
  have gone: "\<forall>r \<in> set (catalogAfter (handleDeleteTag tag rs) rs). tag \<notin> set (tags r)"
    by (rule delete_removes)
  then have absent: "tagCounts (catalogAfter (handleDeleteTag tag rs) rs) tag = None"
    by (intro tagCounts_absent) (simp add: set_rawTags)
  have exact: "catalogAfter (handleDeleteTag tag rs) rs
        = map (\<lambda>r. if tag \<in> set (tags r) then r\<lparr>tags := filter (\<lambda>t. t \<noteq> tag) (tags r)\<rparr> else r) rs"
    if ids: "distinct (map id_res rs)"
  proof (cases "filter (\<lambda>r. tag \<in> set (tags r)) rs = []")
    case True
    then have "\<forall>r \<in> set rs. tag \<notin> set (tags r)"
      by (simp add: filter_empty_conv)
    then have "map (\<lambda>r. if tag \<in> set (tags r) then r\<lparr>tags := filter (\<lambda>t. t \<noteq> tag) (tags r)\<rparr> else r) rs = rs"
      by (simp add: map_idI)
    then show ?thesis using True by (simp add: catalogAfter_delete)
  next
    case False
    then show ?thesis
      using batch_map_filter [OF ids, of "\<lambda>r. r\<lparr>tags := filter (\<lambda>t. t \<noteq> tag) (tags r)\<rparr>" "\<lambda>r. tag \<in> set (tags r)"]
      by (simp add: catalogAfter_delete)
  qed
  from exact have exact': "distinct (map id_res rs) \<longrightarrow>
        catalogAfter (handleDeleteTag tag rs) rs
        = map (\<lambda>r. if tag \<in> set (tags r) then r\<lparr>tags := filter (\<lambda>t. t \<noteq> tag) (tags r)\<rparr> else r) rs"
    by (rule impI)
  show ?thesis
    by (rule conjI [OF count conjI [OF gone conjI [OF absent exact']]])
qed

lemma exampleTagged_ids: "distinct (map id_res exampleTagged)"
  by (simp add: exampleTagged_def str_def)

theorem handleDeleteTag_rule_witness:
  "distinct (map id_res exampleTagged)
   \<and> map tags (catalogAfter (handleDeleteTag (str ''exam-prep'') exampleTagged) exampleTagged)
     = [[], [str ''exam''], [str ''midterm'', str ''midterm''], [str ''syllabus'']]
   \<and> reported (handleDeleteTag (str ''exam-prep'') exampleTagged) = Some 3
   \<and> tagCounts (catalogAfter (handleDeleteTag (str ''exam-prep'') exampleTagged) exampleTagged)
        (str ''exam-prep'') = None"
proof -
  note rule = handleDeleteTag_rule [of "str ''exam-prep''" exampleTagged]
  have after: "catalogAfter (handleDeleteTag (str ''exam-prep'') exampleTagged) exampleTagged
        = map (\<lambda>r. if str ''exam-prep'' \<in> set (tags r)
                 then r\<lparr>tags := filter (\<lambda>t. t \<noteq> str ''exam-prep'') (tags r)\<rparr> else r) exampleTagged"
    using rule [THEN conjunct2, THEN conjunct2, THEN conjunct2] exampleTagged_ids by (rule mp)
  have tags_after: "map tags (map (\<lambda>r. if str ''exam-prep'' \<in> set (tags r)
                 then r\<lparr>tags := filter (\<lambda>t. t \<noteq> str ''exam-prep'') (tags r)\<rparr> else r) exampleTagged)
     = [[], [str ''exam''], [str ''midterm'', str ''midterm''], [str ''syllabus'']]"
    by (simp add: exampleTagged_def str_def)
  have n: "length (filter (\<lambda>r. str ''exam-prep'' \<in> set (tags r)) exampleTagged) = 3"
    by (simp add: exampleTagged_def str_def)
  have count: "reported (handleDeleteTag (str ''exam-prep'') exampleTagged) = Some 3"
    using rule [THEN conjunct1] by (simp only: n)
  have absent: "tagCounts (catalogAfter (handleDeleteTag (str ''exam-prep'') exampleTagged) exampleTagged)
        (str ''exam-prep'') = None"
    by (rule rule [THEN conjunct2, THEN conjunct2, THEN conjunct1])
  show ?thesis
    using exampleTagged_ids after [symmetric] tags_after count absent by (simp only: simp_thms)
qed

lemma catalogAfter_rename:
  "trim cur \<noteq> [] \<Longrightarrow> cur \<noteq> old \<Longrightarrow>
   catalogAfter (handleRenameTag (Some (old, cur)) rs) rs =
     (let us = map (\<lambda>r. r\<lparr>tags := newSet (map (\<lambda>t. if t = old then trim cur else t) (tags r))\<rparr>)
                 (filter (\<lambda>r. old \<in> set (tags r)) rs)
      in if us \<noteq> [] then handleBatchUpdateResources us rs else rs)"
  by (simp add: catalogAfter_def renameTag_updates Let_def)

lemma rename_exact:
  assumes go: "trim cur \<noteq> []" "cur \<noteq> old" and ids: "distinct (map id_res rs)"
  shows "catalogAfter (handleRenameTag (Some (old, cur)) rs) rs
         = map (\<lambda>r. if old \<in> set (tags r)
                    then r\<lparr>tags := newSet (map (\<lambda>t. if t = old then trim cur else t) (tags r))\<rparr>
                    else r) rs"
proof (cases "filter (\<lambda>r. old \<in> set (tags r)) rs = []")
  case True
  then have "\<forall>r \<in> set rs. old \<notin> set (tags r)"
    by (simp add: filter_empty_conv)
  then have "map (\<lambda>r. if old \<in> set (tags r)
                    then r\<lparr>tags := newSet (map (\<lambda>t. if t = old then trim cur else t) (tags r))\<rparr>
                    else r) rs = rs"
    by (simp add: map_idI)
  moreover have "catalogAfter (handleRenameTag (Some (old, cur)) rs) rs = rs"
    using True go by (simp add: catalogAfter_rename)
  ultimately show ?thesis by simp
next
  case False
  have "catalogAfter (handleRenameTag (Some (old, cur)) rs) rs
        = handleBatchUpdateResources
            (map (\<lambda>r. r\<lparr>tags := newSet (map (\<lambda>t. if t = old then trim cur else t) (tags r))\<rparr>)
               (filter (\<lambda>r. old \<in> set (tags r)) rs)) rs"
    using False go by (simp add: catalogAfter_rename)
  also have "\<dots> = map (\<lambda>r. if old \<in> set (tags r)
                    then r\<lparr>tags := newSet (map (\<lambda>t. if t = old then trim cur else t) (tags r))\<rparr>
                    else r) rs"
    by (rule batch_map_filter [OF ids]) simp
  finally show ?thesis .
qed

lemma renamed_tags:
  assumes "old \<in> set ts"
  shows "distinct (newSet (map (\<lambda>t. if t = old then new else t) ts))
     \<and> set (newSet (map (\<lambda>t. if t = old then new else t) ts)) = insert new (set ts - {old})
     \<and> count_list (newSet (map (\<lambda>t. if t = old then new else t) ts)) new = 1"
proof -
  have s: "set (newSet (map (\<lambda>t. if t = old then new else t) ts)) = insert new (set ts - {old})"
    using assms by (auto simp: set_newSet)
  then have "new \<in> set (newSet (map (\<lambda>t. if t = old then new else t) ts))" by simp
  then have "count_list (newSet (map (\<lambda>t. if t = old then new else t) ts)) new = 1"
    using distinct_newSet by (rule count_list_distinct [rotated])
  then show ?thesis using s distinct_newSet by blast
qed

text \<open>
  C3. Renaming a tag does nothing (no batch update, catalog unchanged) when the new name
  is empty or white space or equals the old one. Otherwise it reports the number of
  resources that contain the old tag, and in a catalog with unique ids each of them gets
  the old tag replaced by the new name with the white space at its ends removed, the
  first of equal tags kept, while the other resources are unchanged: the new tag list
  has no repetition and holds the new name exactly once.
\<close>

theorem handleRenameTag_rule:
  "(trim cur = [] \<or> cur = old \<longrightarrow>
      handleRenameTag (Some (old, cur)) rs = \<lparr>batchUpdate = None, reported = None\<rparr>
      \<and> catalogAfter (handleRenameTag (Some (old, cur)) rs) rs = rs)
   \<and> (trim cur \<noteq> [] \<and> cur \<noteq> old \<longrightarrow>
        reported (handleRenameTag (Some (old, cur)) rs)
        = Some (length (filter (\<lambda>r. old \<in> set (tags r)) rs)))
   \<and> (trim cur \<noteq> [] \<and> cur \<noteq> old \<and> distinct (map id_res rs) \<longrightarrow>
        catalogAfter (handleRenameTag (Some (old, cur)) rs) rs
        = map (\<lambda>r. if old \<in> set (tags r)
                   then r\<lparr>tags := newSet (map (\<lambda>t. if t = old then trim cur else t) (tags r))\<rparr>
                   else r) rs)
   \<and> (old \<in> set ts \<longrightarrow>
        distinct (newSet (map (\<lambda>t. if t = old then new else t) ts))
        \<and> set (newSet (map (\<lambda>t. if t = old then new else t) ts)) = insert new (set ts - {old})
        \<and> count_list (newSet (map (\<lambda>t. if t = old then new else t) ts)) new = 1)"
proof -
  have noop: "trim cur = [] \<or> cur = old \<longrightarrow>
      handleRenameTag (Some (old, cur)) rs = \<lparr>batchUpdate = None, reported = None\<rparr>
      \<and> catalogAfter (handleRenameTag (Some (old, cur)) rs) rs = rs"
    by (auto simp: handleRenameTag_def catalogAfter_def)
  have count: "trim cur \<noteq> [] \<and> cur \<noteq> old \<longrightarrow>
        reported (handleRenameTag (Some (old, cur)) rs)
        = Some (length (filter (\<lambda>r. old \<in> set (tags r)) rs))"
    by (simp add: renameTag_updates Let_def)
  have exact: "trim cur \<noteq> [] \<and> cur \<noteq> old \<and> distinct (map id_res rs) \<longrightarrow>
        catalogAfter (handleRenameTag (Some (old, cur)) rs) rs
        = map (\<lambda>r. if old \<in> set (tags r)
                   then r\<lparr>tags := newSet (map (\<lambda>t. if t = old then trim cur else t) (tags r))\<rparr>
                   else r) rs"
    by (intro impI, elim conjE, rule rename_exact)
  have once: "old \<in> set ts \<longrightarrow>
        distinct (newSet (map (\<lambda>t. if t = old then new else t) ts))
        \<and> set (newSet (map (\<lambda>t. if t = old then new else t) ts)) = insert new (set ts - {old})
        \<and> count_list (newSet (map (\<lambda>t. if t = old then new else t) ts)) new = 1"
    by (rule impI) (rule renamed_tags)
  show ?thesis
    by (rule conjI [OF noop conjI [OF count conjI [OF exact once]]])
qed

lemma trim_exam: "trim (str ''exam'') = str ''exam''"
  by (simp add: trim_def isWhiteSpace_def str_def)

lemma trim_spaces: "trim (str ''  '') = []"
  by (simp add: trim_def isWhiteSpace_def str_def)

lemma trim_padded: "trim (str '' exam'') = str ''exam''"
  by (simp add: trim_def isWhiteSpace_def str_def)

theorem handleRenameTag_rule_witness:
  "trim (str ''exam'') \<noteq> [] \<and> str ''exam'' \<noteq> str ''exam-prep''
   \<and> distinct (map id_res exampleTagged)
   \<and> map tags (catalogAfter (handleRenameTag (Some (str ''exam-prep'', str ''exam'')) exampleTagged)
        exampleTagged)
     = [[str ''exam''], [str ''exam''], [str ''exam'', str ''midterm''], [str ''syllabus'']]
   \<and> reported (handleRenameTag (Some (str ''exam-prep'', str ''exam'')) exampleTagged) = Some 3
   \<and> catalogAfter (handleRenameTag (Some (str ''exam-prep'', str ''  '')) exampleTagged) exampleTagged
     = exampleTagged
   \<and> catalogAfter (handleRenameTag (Some (str ''exam-prep'', str ''exam-prep'')) exampleTagged)
        exampleTagged
     = exampleTagged
   \<and> count_list
        (newSet (map (\<lambda>t. if t = str ''exam-prep'' then str ''exam'' else t)
                   [str ''exam'', str ''exam-prep'']))
        (str ''exam'') = 1"
proof -
  note rule = handleRenameTag_rule [of "str ''exam''" "str ''exam-prep''" exampleTagged]
  have member: "str ''exam-prep'' \<in> set [str ''exam'', str ''exam-prep'']"
    by simp
  have once: "count_list
        (newSet (map (\<lambda>t. if t = str ''exam-prep'' then str ''exam'' else t)
                   [str ''exam'', str ''exam-prep'']))
        (str ''exam'') = 1"
    by (rule handleRenameTag_rule [where old = "str ''exam-prep''" and new = "str ''exam''"
          and ts = "[str ''exam'', str ''exam-prep'']",
          THEN conjunct2, THEN conjunct2, THEN conjunct2, THEN mp, OF member,
          THEN conjunct2, THEN conjunct2])
  have go: "trim (str ''exam'') \<noteq> [] \<and> str ''exam'' \<noteq> str ''exam-prep''"
    by (simp add: trim_exam) (simp add: str_def)
  have after: "catalogAfter (handleRenameTag (Some (str ''exam-prep'', str ''exam'')) exampleTagged)
        exampleTagged
        = map (\<lambda>r. if str ''exam-prep'' \<in> set (tags r)
                   then r\<lparr>tags := newSet (map (\<lambda>t. if t = str ''exam-prep'' then trim (str ''exam'') else t)
                                             (tags r))\<rparr>
                   else r) exampleTagged"
    by (rule rule [THEN conjunct2, THEN conjunct2, THEN conjunct1, THEN mp,
          OF conjI [OF go [THEN conjunct1] conjI [OF go [THEN conjunct2] exampleTagged_ids]]])
  have tags_after: "map tags (map (\<lambda>r. if str ''exam-prep'' \<in> set (tags r)
                   then r\<lparr>tags := newSet (map (\<lambda>t. if t = str ''exam-prep'' then trim (str ''exam'') else t)
                                             (tags r))\<rparr>
                   else r) exampleTagged)
     = [[str ''exam''], [str ''exam''], [str ''exam'', str ''midterm''], [str ''syllabus'']]"
    by (simp add: trim_exam exampleTagged_def newSet_def) (simp add: str_def)
  have n: "length (filter (\<lambda>r. str ''exam-prep'' \<in> set (tags r)) exampleTagged) = 3"
    by (simp add: exampleTagged_def str_def)
  have count: "reported (handleRenameTag (Some (str ''exam-prep'', str ''exam'')) exampleTagged) = Some 3"
    using rule [THEN conjunct2, THEN conjunct1, THEN mp, OF go] by (simp only: n)
  have blank: "catalogAfter (handleRenameTag (Some (str ''exam-prep'', str ''  '')) exampleTagged)
        exampleTagged = exampleTagged"
    by (rule handleRenameTag_rule [of "str ''  ''" "str ''exam-prep''" exampleTagged,
          THEN conjunct1, THEN mp, OF disjI1 [OF trim_spaces], THEN conjunct2])
  have same: "catalogAfter (handleRenameTag (Some (str ''exam-prep'', str ''exam-prep'')) exampleTagged)
        exampleTagged = exampleTagged"
    by (rule handleRenameTag_rule [of "str ''exam-prep''" "str ''exam-prep''" exampleTagged,
          THEN conjunct1, THEN mp, OF disjI2 [OF refl], THEN conjunct2])
  show ?thesis
    using go exampleTagged_ids after [symmetric] tags_after count blank same once
    by (simp only: simp_thms)
qed

text \<open>
  The name that replaces the old tag is the trimmed one: renaming to a name with a
  leading space stores the name without it.
\<close>

theorem handleRenameTag_untrimmed_counterexample:
  "map tags
     (catalogAfter
        (handleRenameTag (Some (str ''exam-prep'', str '' exam''))
           [baseResource\<lparr>tags := [str ''exam-prep'']\<rparr>])
        [baseResource\<lparr>tags := [str ''exam-prep'']\<rparr>])
   = [[str ''exam'']]
   \<and> str '' exam'' \<noteq> str ''exam''"
proof -
  have neq: "str '' exam'' \<noteq> str ''exam-prep'' \<and> str '' exam'' \<noteq> str ''exam''
      \<and> str ''exam'' \<noteq> []"
    by (simp add: str_def)
  have "map tags
     (catalogAfter
        (handleRenameTag (Some (str ''exam-prep'', str '' exam''))
           [baseResource\<lparr>tags := [str ''exam-prep'']\<rparr>])
        [baseResource\<lparr>tags := [str ''exam-prep'']\<rparr>])
   = [[str ''exam'']]"
    using neq
    by (simp add: handleRenameTag_def trim_padded catalogAfter_def handleBatchUpdateResources_def
          newSet_def Let_def)
  then show ?thesis using neq by simp
qed

lemma split_ex: "split (str ''exam, exam'') 0x2C = [str ''exam'', str '' exam'']"
  by (simp add: str_def)

lemma exam_not_inherited:
  "str ''exam'' \<notin> set objectPrototypeNames \<and> str ''exam'' \<noteq> []
   \<and> str ''exam'' \<noteq> str ''__proto__''"
  by (simp add: objectPrototypeNames_def str_def)

text \<open>
  C9. \<open>uniqueTags\<close> is the sorted list of the distinct tags (\<open>uniqueTags_props\<close>), and
  \<open>tagCounts\<close> counts the occurrences of a tag in the tag lists
  (\<open>tagCounts_occurrences\<close>), which is the number of resources with the tag when no
  list repeats a tag (\<open>count_rawTags_distinct\<close>). The form accepts a repeated tag, and
  for one resource tagged twice with "exam" the count shown as the number of resources
  is 2, while deleting the tag reports 1 resource.
\<close>

theorem tagCounts_repeated_tag:
  "payloadTags (str ''exam, exam'') = [str ''exam'', str ''exam'']
   \<and> tagCounts [baseResource\<lparr>tags := [str ''exam'', str ''exam'']\<rparr>] (str ''exam'')
       = Some (Number 2)
   \<and> length (filter (\<lambda>r. str ''exam'' \<in> set (tags r))
               [baseResource\<lparr>tags := [str ''exam'', str ''exam'']\<rparr>]) = 1
   \<and> reported (handleDeleteTag (str ''exam'') [baseResource\<lparr>tags := [str ''exam'', str ''exam'']\<rparr>])
       = Some 1"
proof -
  have "payloadTags (str ''exam, exam'') = [str ''exam'', str ''exam'']"
    using exam_not_inherited
    by (simp add: payloadTags_def processedTags_def split_ex trim_exam trim_padded)
  moreover have "tagCounts [baseResource\<lparr>tags := [str ''exam'', str ''exam'']\<rparr>] (str ''exam'')
       = Some (Number 2)"
    using exam_not_inherited
    by (simp add: tagCounts_def rawTags_def countTag_def)
  moreover have "reported (handleDeleteTag (str ''exam'')
        [baseResource\<lparr>tags := [str ''exam'', str ''exam'']\<rparr>]) = Some 1"
    by (simp add: deleteTag_updates Let_def)
  ultimately show ?thesis by simp
qed

text \<open>A tag named like an inherited property gets a text as its count.\<close>

lemma constructor_tag:
  "tagCounts [baseResource\<lparr>tags := [str ''constructor'']\<rparr>] (str ''constructor'') = Some NotNumber"
  by (simp add: tagCounts_def rawTags_def countTag_def objectPrototypeNames_def) (simp add: str_def)

section \<open>Properties of the Preview Resolver\<close>

lemma hostPrefixes_youtube:
  "hostPrefixes [str ''youtube.com'', str ''youtu.be''] =
     map str [''youtube.com/'', ''youtu.be/'', ''www.youtube.com/'', ''www.youtu.be/'',
              ''http://youtube.com/'', ''http://youtu.be/'', ''http://www.youtube.com/'',
              ''http://www.youtu.be/'', ''https://youtube.com/'', ''https://youtu.be/'',
              ''https://www.youtube.com/'', ''https://www.youtu.be/'']"
  by (simp add: hostPrefixes_def str_def)

lemma hostPrefixes_vimeo:
  "hostPrefixes [str ''vimeo.com''] =
     map str [''vimeo.com/'', ''www.vimeo.com/'', ''http://vimeo.com/'', ''http://www.vimeo.com/'',
              ''https://vimeo.com/'', ''https://www.vimeo.com/'']"
  by (simp add: hostPrefixes_def str_def)

lemma isYouTubeUrl_nonempty: "isYouTubeUrl c \<Longrightarrow> c \<noteq> []"
  unfolding isYouTubeUrl_def hostPrefixes_youtube
  by (auto simp: startsWith_def str_def)

lemma isVimeoUrl_nonempty: "isVimeoUrl c \<Longrightarrow> c \<noteq> []"
  unfolding isVimeoUrl_def hostPrefixes_vimeo
  by (auto simp: startsWith_def str_def)

lemma trim_id: "s \<noteq> [] \<Longrightarrow> \<not> isWhiteSpace (hd s) \<Longrightarrow> \<not> isWhiteSpace (last s) \<Longrightarrow> trim s = s"
proof -
  assume s: "s \<noteq> []" and h: "\<not> isWhiteSpace (hd s)" and l: "\<not> isWhiteSpace (last s)"
  have "dropWhile isWhiteSpace s = s"
    using s h by (cases s) simp_all
  moreover have "dropWhile isWhiteSpace (rev s) = rev s"
    using s l by (cases "rev s") (auto simp: hd_rev [symmetric] simp del: hd_rev)
  ultimately show ?thesis by (simp add: trim_def)
qed

lemma candidate_url:
  "trim s \<noteq> [] \<Longrightarrow> candidate (r\<lparr>url := Some s\<rparr>) = trim s"
  by (simp add: candidate_def Let_def)

text \<open>The outcome when the YouTube rule finds an embed URL.\<close>

lemma youtube_found:
  assumes "candidate r = c" "isYouTubeUrl c" "getYouTubeEmbedUrl parse c = Some e" "e \<noteq> []"
  shows "getBestPreviewUrl parse r = Inr \<lparr>kind = KindIframe, preview_url = e\<rparr>"
  using assms isYouTubeUrl_nonempty [of c]
  by (simp add: getBestPreviewUrl_def Let_def)

text \<open>
  C4. For a candidate that matches the YouTube pattern and parses as a URL. When the
  host contains \<^verbatim>\<open>youtu.be\<close>, the id is the path without its first slash, and if
  it is not empty the result is an iframe on \<^verbatim>\<open>https://www.youtube.com/embed/\<close>
  followed by the id. When the host does not contain \<^verbatim>\<open>youtu.be\<close> and the query
  has a non-empty parameter \<^verbatim>\<open>v\<close>, the result is an iframe on
  \<^verbatim>\<open>https://www.youtube.com/embed/\<close> followed by that parameter. When the host
  does not contain \<^verbatim>\<open>youtu.be\<close>, there is no such parameter and the path contains
  \<^verbatim>\<open>/embed/\<close>, the result is an iframe on the candidate as it is. So the
  resource with the URL \<^verbatim>\<open>https://youtu.be/abc123\<close> is shown in an iframe on
  \<^verbatim>\<open>https://www.youtube.com/embed/abc123\<close>.
\<close>

theorem youtube_preview:
  assumes "candidate r = c" and "isYouTubeUrl c" and "parse c = Some u"
  shows
   "(str_includes (hostname u) (str ''youtu.be'') \<and> remove1 0x2F (pathname u) \<noteq> [] \<longrightarrow>
       getBestPreviewUrl parse r =
         Inr \<lparr>kind = KindIframe,
              preview_url = str ''https://www.youtube.com/embed/'' @ remove1 0x2F (pathname u)\<rparr>)
    \<and> (\<not> str_includes (hostname u) (str ''youtu.be'')
        \<and> map_of (searchParams u) (str ''v'') = Some v \<and> v \<noteq> [] \<longrightarrow>
       getBestPreviewUrl parse r =
         Inr \<lparr>kind = KindIframe, preview_url = str ''https://www.youtube.com/embed/'' @ v\<rparr>)
    \<and> (\<not> str_includes (hostname u) (str ''youtu.be'')
        \<and> \<not> truthy (map_of (searchParams u) (str ''v''))
        \<and> str_includes (pathname u) (str ''/embed/'') \<longrightarrow>
       getBestPreviewUrl parse r = Inr \<lparr>kind = KindIframe, preview_url = c\<rparr>)"
proof (intro conjI impI)
  assume "str_includes (hostname u) (str ''youtu.be'') \<and> remove1 0x2F (pathname u) \<noteq> []"
  then have "getYouTubeEmbedUrl parse c
             = Some (str ''https://www.youtube.com/embed/'' @ remove1 0x2F (pathname u))"
    using assms(3) by (simp add: getYouTubeEmbedUrl_def Let_def)
  moreover have "str ''https://www.youtube.com/embed/'' @ remove1 0x2F (pathname u) \<noteq> []"
    by (simp add: str_def)
  ultimately show "getBestPreviewUrl parse r =
         Inr \<lparr>kind = KindIframe,
              preview_url = str ''https://www.youtube.com/embed/'' @ remove1 0x2F (pathname u)\<rparr>"
    using assms(1,2) by (intro youtube_found)
next
  assume "\<not> str_includes (hostname u) (str ''youtu.be'')
        \<and> map_of (searchParams u) (str ''v'') = Some v \<and> v \<noteq> []"
  then have "getYouTubeEmbedUrl parse c = Some (str ''https://www.youtube.com/embed/'' @ v)"
    using assms(3) by (simp add: getYouTubeEmbedUrl_def Let_def)
  moreover have "str ''https://www.youtube.com/embed/'' @ v \<noteq> []"
    by (simp add: str_def)
  ultimately show "getBestPreviewUrl parse r =
         Inr \<lparr>kind = KindIframe, preview_url = str ''https://www.youtube.com/embed/'' @ v\<rparr>"
    using assms(1,2) by (intro youtube_found)
next
  assume "\<not> str_includes (hostname u) (str ''youtu.be'')
        \<and> \<not> truthy (map_of (searchParams u) (str ''v''))
        \<and> str_includes (pathname u) (str ''/embed/'')"
  then have "getYouTubeEmbedUrl parse c = Some c"
    using assms(3) by (simp add: getYouTubeEmbedUrl_def Let_def)
  moreover have "c \<noteq> []"
    using assms(2) by (rule isYouTubeUrl_nonempty)
  ultimately show "getBestPreviewUrl parse r = Inr \<lparr>kind = KindIframe, preview_url = c\<rparr>"
    using assms(1,2) by (intro youtube_found)
qed

lemma trim_short: "trim (str ''https://youtu.be/abc123'') = str ''https://youtu.be/abc123''"
  by (rule trim_id) (simp_all add: str_def isWhiteSpace_def)

lemma trim_embed:
  "trim (str ''https://youtube.com/embed/abc123'') = str ''https://youtube.com/embed/abc123''"
  by (rule trim_id) (simp_all add: str_def isWhiteSpace_def)

lemma trim_watch:
  "trim (str ''https://www.youtube.com/watch?v=abc123'')
   = str ''https://www.youtube.com/watch?v=abc123''"
  by (rule trim_id) (simp_all add: str_def isWhiteSpace_def)

lemma trim_bare: "trim (str ''youtu.be/abc123'') = str ''youtu.be/abc123''"
  by (rule trim_id) (simp_all add: str_def isWhiteSpace_def)

lemma trim_bare_pdf: "trim (str ''youtu.be/abc123.pdf'') = str ''youtu.be/abc123.pdf''"
  by (rule trim_id) (simp_all add: str_def isWhiteSpace_def)

lemma trim_surrogate: "trim (0xD800 # str ''.docx'') = 0xD800 # str ''.docx''"
  by (rule trim_id) (simp_all add: str_def isWhiteSpace_def)

lemma candidate_short:
  "candidate (baseResource\<lparr>url := Some (str ''https://youtu.be/abc123'')\<rparr>)
   = str ''https://youtu.be/abc123''"
  using candidate_url [of "str ''https://youtu.be/abc123''" baseResource]
  by (simp add: trim_short) (simp add: str_def)

lemma candidate_embed:
  "candidate (baseResource\<lparr>url := Some (str ''https://youtube.com/embed/abc123'')\<rparr>)
   = str ''https://youtube.com/embed/abc123''"
  using candidate_url [of "str ''https://youtube.com/embed/abc123''" baseResource]
  by (simp add: trim_embed) (simp add: str_def)

lemma candidate_watch:
  "candidate (baseResource\<lparr>url := Some (str ''https://www.youtube.com/watch?v=abc123'')\<rparr>)
   = str ''https://www.youtube.com/watch?v=abc123''"
  using candidate_url [of "str ''https://www.youtube.com/watch?v=abc123''" baseResource]
  by (simp add: trim_watch) (simp add: str_def)

lemma candidate_bare:
  "candidate (baseResource\<lparr>url := Some (str ''youtu.be/abc123'')\<rparr>) = str ''youtu.be/abc123''"
  using candidate_url [of "str ''youtu.be/abc123''" baseResource]
  by (simp add: trim_bare) (simp add: str_def)

lemma candidate_bare_pdf:
  "candidate (baseResource\<lparr>url := Some (str ''youtu.be/abc123.pdf'')\<rparr>)
   = str ''youtu.be/abc123.pdf''"
  using candidate_url [of "str ''youtu.be/abc123.pdf''" baseResource]
  by (simp add: trim_bare_pdf) (simp add: str_def)

lemma candidate_surrogate:
  "candidate (baseResource\<lparr>url := Some (0xD800 # str ''.docx'')\<rparr>) = 0xD800 # str ''.docx''"
  using candidate_url [of "0xD800 # str ''.docx''" baseResource]
  by (simp add: trim_surrogate)

lemma isYouTubeUrl_short: "isYouTubeUrl (str ''https://youtu.be/abc123'')"
  unfolding isYouTubeUrl_def hostPrefixes_youtube
  by (simp add: startsWith_def str_def foldCase_def)

lemma isYouTubeUrl_embed: "isYouTubeUrl (str ''https://youtube.com/embed/abc123'')"
  unfolding isYouTubeUrl_def hostPrefixes_youtube
  by (simp add: startsWith_def str_def foldCase_def)

lemma isYouTubeUrl_watch: "isYouTubeUrl (str ''https://www.youtube.com/watch?v=abc123'')"
  unfolding isYouTubeUrl_def hostPrefixes_youtube
  by (simp add: startsWith_def str_def foldCase_def)

lemma isYouTubeUrl_bare: "isYouTubeUrl (str ''youtu.be/abc123'')"
  unfolding isYouTubeUrl_def hostPrefixes_youtube
  by (simp add: startsWith_def str_def foldCase_def)

lemma isYouTubeUrl_bare_pdf: "isYouTubeUrl (str ''youtu.be/abc123.pdf'')"
  unfolding isYouTubeUrl_def hostPrefixes_youtube
  by (simp add: startsWith_def str_def foldCase_def)

lemma exampleURL_short:
  "exampleURL (str ''https://youtu.be/abc123'')
   = Some \<lparr>hostname = str ''youtu.be'', pathname = str ''/abc123'', searchParams = []\<rparr>"
  by (simp add: exampleURL_def)

lemma exampleURL_embed:
  "exampleURL (str ''https://youtube.com/embed/abc123'')
   = Some \<lparr>hostname = str ''youtube.com'', pathname = str ''/embed/abc123'', searchParams = []\<rparr>"
  by (simp add: exampleURL_def) (simp add: str_def)

lemma exampleURL_watch:
  "exampleURL (str ''https://www.youtube.com/watch?v=abc123'')
   = Some \<lparr>hostname = str ''www.youtube.com'', pathname = str ''/watch'',
            searchParams = [(str ''v'', str ''abc123'')]\<rparr>"
  by (simp add: exampleURL_def) (simp add: str_def)

lemma exampleURL_bare: "exampleURL (str ''youtu.be/abc123'') = None"
  by (simp add: exampleURL_def) (simp add: str_def)

lemma exampleURL_bare_pdf: "exampleURL (str ''youtu.be/abc123.pdf'') = None"
  by (simp add: exampleURL_def) (simp add: str_def)

lemma exampleURL_surrogate: "exampleURL (0xD800 # str ''.docx'') = None"
  by (simp add: exampleURL_def) (simp add: str_def)

lemma includes_short: "str_includes (str ''youtu.be'') (str ''youtu.be'')"
  by (simp add: str_def startsWith_def)

lemma includes_host: "\<not> str_includes (str ''youtube.com'') (str ''youtu.be'')"
  by (simp add: str_def startsWith_def)

lemma includes_www: "\<not> str_includes (str ''www.youtube.com'') (str ''youtu.be'')"
  by (simp add: str_def startsWith_def)

lemma includes_embed: "str_includes (str ''/embed/abc123'') (str ''/embed/'')"
  by (simp add: str_def startsWith_def)

lemma remove1_short: "remove1 0x2F (str ''/abc123'') = str ''abc123''"
  by (simp add: str_def)

theorem youtube_preview_witness:
  "candidate (baseResource\<lparr>url := Some (str ''https://youtu.be/abc123'')\<rparr>)
     = str ''https://youtu.be/abc123''
   \<and> isYouTubeUrl (str ''https://youtu.be/abc123'')
   \<and> exampleURL (str ''https://youtu.be/abc123'')
     = Some \<lparr>hostname = str ''youtu.be'', pathname = str ''/abc123'', searchParams = []\<rparr>
   \<and> getBestPreviewUrl exampleURL (baseResource\<lparr>url := Some (str ''https://youtu.be/abc123'')\<rparr>)
     = Inr \<lparr>kind = KindIframe, preview_url = str ''https://www.youtube.com/embed/abc123''\<rparr>
   \<and> getBestPreviewUrl exampleURL
        (baseResource\<lparr>url := Some (str ''https://www.youtube.com/watch?v=abc123'')\<rparr>)
     = Inr \<lparr>kind = KindIframe, preview_url = str ''https://www.youtube.com/embed/abc123''\<rparr>
   \<and> getBestPreviewUrl exampleURL
        (baseResource\<lparr>url := Some (str ''https://youtube.com/embed/abc123'')\<rparr>)
     = Inr \<lparr>kind = KindIframe, preview_url = str ''https://youtube.com/embed/abc123''\<rparr>"
proof -
  have ne: "str ''abc123'' \<noteq> []"
    by (simp add: str_def)
  have cat: "str ''https://www.youtube.com/embed/'' @ str ''abc123''
             = str ''https://www.youtube.com/embed/abc123''"
    by (simp add: str_def)
  have short: "getBestPreviewUrl exampleURL
        (baseResource\<lparr>url := Some (str ''https://youtu.be/abc123'')\<rparr>)
     = Inr \<lparr>kind = KindIframe, preview_url = str ''https://www.youtube.com/embed/abc123''\<rparr>"
    using youtube_preview [where parse = exampleURL, OF candidate_short isYouTubeUrl_short
        exampleURL_short, THEN conjunct1]
      includes_short ne
    by (simp add: remove1_short cat)
  have watch: "getBestPreviewUrl exampleURL
        (baseResource\<lparr>url := Some (str ''https://www.youtube.com/watch?v=abc123'')\<rparr>)
     = Inr \<lparr>kind = KindIframe, preview_url = str ''https://www.youtube.com/embed/abc123''\<rparr>"
    using youtube_preview [where parse = exampleURL and v = "str ''abc123''", OF candidate_watch
        isYouTubeUrl_watch exampleURL_watch, THEN conjunct2, THEN conjunct1]
      includes_www ne
    by (simp add: cat)
  have embed: "getBestPreviewUrl exampleURL
        (baseResource\<lparr>url := Some (str ''https://youtube.com/embed/abc123'')\<rparr>)
     = Inr \<lparr>kind = KindIframe, preview_url = str ''https://youtube.com/embed/abc123''\<rparr>"
    using youtube_preview [where parse = exampleURL, OF candidate_embed isYouTubeUrl_embed
        exampleURL_embed, THEN conjunct2, THEN conjunct2]
      includes_host includes_embed
    by simp
  show ?thesis
    using candidate_short isYouTubeUrl_short exampleURL_short short watch embed
    by (simp only: simp_thms)
qed

text \<open>
  An embed URL on another spelling of the host is passed on as it is, not rewritten to
  the host \<^verbatim>\<open>www.youtube.com\<close>.
\<close>

theorem youtube_embed_counterexample:
  "isYouTubeUrl (str ''https://youtube.com/embed/abc123'')
   \<and> getBestPreviewUrl exampleURL
        (baseResource\<lparr>url := Some (str ''https://youtube.com/embed/abc123'')\<rparr>)
     = Inr \<lparr>kind = KindIframe, preview_url = str ''https://youtube.com/embed/abc123''\<rparr>
   \<and> str ''https://youtube.com/embed/abc123'' \<noteq> str ''https://www.youtube.com/embed/abc123''"
proof -
  have "getYouTubeEmbedUrl exampleURL (str ''https://youtube.com/embed/abc123'')
        = Some (str ''https://youtube.com/embed/abc123'')"
    using includes_host includes_embed
    by (simp add: getYouTubeEmbedUrl_def exampleURL_embed Let_def)
  moreover have "str ''https://youtube.com/embed/abc123'' \<noteq> []"
    by (simp add: str_def)
  ultimately have "getBestPreviewUrl exampleURL
        (baseResource\<lparr>url := Some (str ''https://youtube.com/embed/abc123'')\<rparr>)
     = Inr \<lparr>kind = KindIframe, preview_url = str ''https://youtube.com/embed/abc123''\<rparr>"
    using candidate_embed isYouTubeUrl_embed by (intro youtube_found)
  moreover have "str ''https://youtube.com/embed/abc123'' \<noteq> str ''https://www.youtube.com/embed/abc123''"
    by (simp add: str_def)
  ultimately show ?thesis
    using isYouTubeUrl_embed by (simp only: simp_thms)
qed

lemma unparseable_helpers:
  "parse c = None \<Longrightarrow>
   getYouTubeEmbedUrl parse c = None \<and> getVimeoEmbedUrl parse c = None
   \<and> getGoogleDrivePreviewUrl parse c = None"
  by (simp add: getYouTubeEmbedUrl_def getVimeoEmbedUrl_def getGoogleDrivePreviewUrl_def)

lemma unparseable_extensions:
  assumes "candidate r = c" and "c \<noteq> []" and "parse c = None"
  shows "getBestPreviewUrl parse r =
     (if isProbablyOfficeDoc c
        then (case getOfficeViewerUrl c of
                Inl e \<Rightarrow> Inl e
              | Inr v \<Rightarrow> Inr \<lparr>kind = KindIframe, preview_url = v\<rparr>)
      else if isPdf c then Inr \<lparr>kind = KindPdf, preview_url = c\<rparr>
      else if isImage c then Inr \<lparr>kind = KindImage, preview_url = c\<rparr>
      else if isVideoFile c then Inr \<lparr>kind = KindVideo, preview_url = c\<rparr>
      else Inr \<lparr>kind = KindLink, preview_url = c\<rparr>)"
  using assms unparseable_helpers [where parse = parse, OF assms(3)]
  by (simp add: getBestPreviewUrl_def Let_def)

text \<open>
  C10. For a candidate that matches the YouTube or Vimeo pattern and does not parse as a
  URL, no embed URL is derived and the rules on the file extension decide: the result is
  the plain link on the candidate when it has no office, PDF, image or video extension,
  as for \<^verbatim>\<open>youtu.be/abc123\<close>.
\<close>

theorem unparseable_video_url:
  assumes "candidate r = c" and "isYouTubeUrl c \<or> isVimeoUrl c" and "parse c = None"
  shows "getBestPreviewUrl parse r =
     (if isProbablyOfficeDoc c
        then (case getOfficeViewerUrl c of
                Inl e \<Rightarrow> Inl e
              | Inr v \<Rightarrow> Inr \<lparr>kind = KindIframe, preview_url = v\<rparr>)
      else if isPdf c then Inr \<lparr>kind = KindPdf, preview_url = c\<rparr>
      else if isImage c then Inr \<lparr>kind = KindImage, preview_url = c\<rparr>
      else if isVideoFile c then Inr \<lparr>kind = KindVideo, preview_url = c\<rparr>
      else Inr \<lparr>kind = KindLink, preview_url = c\<rparr>)
    \<and> (\<not> isProbablyOfficeDoc c \<and> \<not> isPdf c \<and> \<not> isImage c \<and> \<not> isVideoFile c \<longrightarrow>
         getBestPreviewUrl parse r = Inr \<lparr>kind = KindLink, preview_url = c\<rparr>)"
proof -
  have "c \<noteq> []"
    using assms(2) isYouTubeUrl_nonempty isVimeoUrl_nonempty by blast
  then show ?thesis
    using unparseable_extensions [where parse = parse, OF assms(1) _ assms(3)] by simp
qed

lemma split_bare: "split (str ''youtu.be/abc123'') 0x3F = [str ''youtu.be/abc123'']"
  by (simp add: str_def)

lemma split_bare_pdf: "split (str ''youtu.be/abc123.pdf'') 0x3F = [str ''youtu.be/abc123.pdf'']"
  by (simp add: str_def)

lemma split_surrogate: "split (0xD800 # str ''.docx'') 0x3F = [0xD800 # str ''.docx'']"
  by (simp add: str_def)

lemma bare_extensions:
  "\<not> isProbablyOfficeDoc (str ''youtu.be/abc123'') \<and> \<not> isPdf (str ''youtu.be/abc123'')
   \<and> \<not> isImage (str ''youtu.be/abc123'') \<and> \<not> isVideoFile (str ''youtu.be/abc123'')"
  by (simp add: isProbablyOfficeDoc_def isPdf_def isImage_def isVideoFile_def hasExtension_def
        split_bare)
     (simp add: str_def endsWith_def foldCase_def)

lemma bare_pdf_extensions:
  "\<not> isProbablyOfficeDoc (str ''youtu.be/abc123.pdf'') \<and> isPdf (str ''youtu.be/abc123.pdf'')"
  by (simp add: isProbablyOfficeDoc_def isPdf_def hasExtension_def split_bare_pdf)
     (simp add: str_def endsWith_def foldCase_def)

lemma surrogate_extension: "isProbablyOfficeDoc (0xD800 # str ''.docx'')"
  by (simp add: isProbablyOfficeDoc_def hasExtension_def split_surrogate)
     (simp add: str_def endsWith_def foldCase_def)

theorem unparseable_video_url_witness:
  "candidate (baseResource\<lparr>url := Some (str ''youtu.be/abc123'')\<rparr>) = str ''youtu.be/abc123''
   \<and> isYouTubeUrl (str ''youtu.be/abc123'')
   \<and> exampleURL (str ''youtu.be/abc123'') = None
   \<and> getBestPreviewUrl exampleURL (baseResource\<lparr>url := Some (str ''youtu.be/abc123'')\<rparr>)
     = Inr \<lparr>kind = KindLink, preview_url = str ''youtu.be/abc123''\<rparr>"
proof -
  have "getBestPreviewUrl exampleURL (baseResource\<lparr>url := Some (str ''youtu.be/abc123'')\<rparr>)
     = Inr \<lparr>kind = KindLink, preview_url = str ''youtu.be/abc123''\<rparr>"
    by (rule unparseable_video_url [where parse = exampleURL, OF candidate_bare
          disjI1 [OF isYouTubeUrl_bare] exampleURL_bare, THEN conjunct2, THEN mp,
          OF bare_extensions])
  then show ?thesis
    using candidate_bare isYouTubeUrl_bare exampleURL_bare by (simp only: simp_thms)
qed

text \<open>With an extension the result is not the plain link.\<close>

theorem unparseable_pdf_counterexample:
  "isYouTubeUrl (str ''youtu.be/abc123.pdf'')
   \<and> exampleURL (str ''youtu.be/abc123.pdf'') = None
   \<and> getBestPreviewUrl exampleURL (baseResource\<lparr>url := Some (str ''youtu.be/abc123.pdf'')\<rparr>)
     = Inr \<lparr>kind = KindPdf, preview_url = str ''youtu.be/abc123.pdf''\<rparr>"
proof -
  have "str ''youtu.be/abc123.pdf'' \<noteq> []"
    using isYouTubeUrl_bare_pdf by (rule isYouTubeUrl_nonempty)
  then have "getBestPreviewUrl exampleURL (baseResource\<lparr>url := Some (str ''youtu.be/abc123.pdf'')\<rparr>)
     = Inr \<lparr>kind = KindPdf, preview_url = str ''youtu.be/abc123.pdf''\<rparr>"
    using unparseable_extensions [where parse = exampleURL, OF candidate_bare_pdf _ exampleURL_bare_pdf]
      bare_pdf_extensions
    by simp
  then show ?thesis
    using isYouTubeUrl_bare_pdf exampleURL_bare_pdf by (simp only: simp_thms)
qed

lemma encode_surrogate: "encodeURIComponent (0xD800 # str ''.docx'') = Inl URIError"
  by (simp add: uriUnescaped_def isTrailSurrogate_def isLeadSurrogate_def str_def)

text \<open>
  C2. The resolver does not return for every string: a URL with an office extension
  that holds an unpaired surrogate reaches \<^verbatim>\<open>encodeURIComponent\<close>, whose
  \<^verbatim>\<open>URIError\<close> nothing catches.
\<close>

theorem getBestPreviewUrl_throws:
  "getBestPreviewUrl exampleURL (baseResource\<lparr>url := Some (0xD800 # str ''.docx'')\<rparr>)
   = Inl URIError"
proof -
  have "getBestPreviewUrl exampleURL (baseResource\<lparr>url := Some (0xD800 # str ''.docx'')\<rparr>)
    = (case getOfficeViewerUrl (0xD800 # str ''.docx'') of
                Inl e \<Rightarrow> Inl e
              | Inr v \<Rightarrow> Inr \<lparr>kind = KindIframe, preview_url = v\<rparr>)"
    using unparseable_extensions [where parse = exampleURL, OF candidate_surrogate _
        exampleURL_surrogate] surrogate_extension
    by simp
  also have "\<dots> = Inl URIError"
    by (simp only: getOfficeViewerUrl_def encode_surrogate sum.case)
  finally show ?thesis .
qed

text \<open>
  That is the only exception: an error of the resolver is an error of the encoding of an
  office document's URL, which a string without surrogates does not raise. Without a URL
  the result is \<open>KindNone\<close>, and a candidate that no rule matches is a plain link.
\<close>

lemma getBestPreviewUrl_error:
  "getBestPreviewUrl parse r = Inl e \<Longrightarrow>
   isProbablyOfficeDoc (candidate r) \<and> encodeURIComponent (candidate r) = Inl e"
  by (auto simp: getBestPreviewUrl_def Let_def getOfficeViewerUrl_def
      split: if_splits sum.splits)

lemma encodeURIComponent_well_formed:
  "\<forall>c \<in> set s. \<not> isLeadSurrogate c \<and> \<not> isTrailSurrogate c \<Longrightarrow>
   \<exists>r. encodeURIComponent s = Inr r"
  by (induction s) auto

lemma getBestPreviewUrl_none:
  "candidate r = [] \<Longrightarrow> getBestPreviewUrl parse r = Inr \<lparr>kind = KindNone, preview_url = []\<rparr>"
  by (simp add: getBestPreviewUrl_def)

lemma candidate_empty:
  "(url r = None \<or> url r = Some []) \<Longrightarrow> (external_url r = None \<or> external_url r = Some []) \<Longrightarrow>
   candidate r = []"
  by (auto simp: candidate_def trim_Nil)

lemma getBestPreviewUrl_link:
  assumes "candidate r = c" "c \<noteq> []"
    "\<not> (isYouTubeUrl c \<and> truthy (getYouTubeEmbedUrl parse c))"
    "\<not> (isVimeoUrl c \<and> truthy (getVimeoEmbedUrl parse c))"
    "\<not> truthy (getGoogleDrivePreviewUrl parse c)"
    "\<not> isProbablyOfficeDoc c" "\<not> isPdf c" "\<not> isImage c" "\<not> isVideoFile c"
  shows "getBestPreviewUrl parse r = Inr \<lparr>kind = KindLink, preview_url = c\<rparr>"
  using assms by (simp add: getBestPreviewUrl_def Let_def)

end
